theory Spec2Isabelle
  imports Complex_Main "HOL-Library.Char_ord" "HOL-Library.List_Lexorder"
begin

section \<open>ION-Bus Connect: the transfer index computation\<close>

text \<open>
  The three scripts \<^verbatim>\<open>build_transfer_index.py\<close>, \<^verbatim>\<open>build_transfer_index_interactive.py\<close>
  and \<^verbatim>\<open>ion_bus_connect.py\<close> share one computation: filter the stop-time rows of the service
  day to a time window, join bus stops spatially to buffered rail (ION) stops, pair rail
  arrivals with bus departures at each joined stop pair, and count distinct bus routes per
  rail stop. The embedding follows the scripts line by line. Python strings are modelled as
  \<^typ>\<open>string\<close> (lists of 8-bit characters, compared by character code as Python compares
  code points), a missing cell (NaN) as \<^term>\<open>None\<close>, and an uncaught exception as the
  left summand of the result.
\<close>

subsection \<open>Data\<close>

text \<open>
  A row of \<^verbatim>\<open>stops.txt\<close> after projection. The point geometry is kept abstract (type
  \<^typ>\<open>'g\<close>): the scripts never look inside it, they hand it to the geometry library.
\<close>

record 'g stop =
  stop_id :: string
  stop_name :: string
  geometry :: 'g

text \<open>
  A row of \<^verbatim>\<open>st_with_routes\<close> (\<^verbatim>\<open>stop_times.merge(trips[['trip_id', 'route_id']])\<close>). All
  columns are read with \<^verbatim>\<open>dtype=str\<close>; the two time cells may be missing.
\<close>

record stop_time =
  trip_id :: string
  st_stop_id :: string
  route_id :: string
  arrival_time :: "string option"
  departure_time :: "string option"

text \<open>A row of the spatial join: \<^verbatim>\<open>stop_id_left\<close> is the bus stop, \<^verbatim>\<open>stop_id_right\<close> the rail stop.\<close>

record nearby_row =
  stop_id_left :: string
  stop_id_right :: string

text \<open>An element of the list \<^verbatim>\<open>transfers\<close>: the dictionary with the two keys of the source.\<close>

record transfer =
  ion_stop_id :: string
  bus_route_id :: string

text \<open>
  The exceptions that the modelled code can raise: \<^verbatim>\<open>ValueError\<close> from
  \<^verbatim>\<open>pd.to_datetime\<close>, \<^verbatim>\<open>KeyError\<close> from a \<^verbatim>\<open>.loc\<close> assignment with an unknown label, and
  the exit status of \<^verbatim>\<open>sys.exit\<close>.
\<close>

datatype error = ValueError | KeyError | SystemExit nat

subsection \<open>Clock strings\<close>

definition is_digit :: "char \<Rightarrow> bool" where
  "is_digit c = (48 \<le> (of_char c :: nat) \<and> (of_char c :: nat) \<le> 57)"

definition digit_val :: "char \<Rightarrow> nat" where
  "digit_val c = of_char c - 48"

definition two_digits :: "char \<Rightarrow> char \<Rightarrow> nat" where
  "two_digits a b = 10 * digit_val a + digit_val b"

text \<open>
  The fields of a string of the exact shape \<^verbatim>\<open>dd:dd:dd\<close> (eight characters), and
  \<^term>\<open>None\<close> for every other string. On 8-bit characters the class \<^verbatim>\<open>\d\<close> is \<^verbatim>\<open>0\<close> to
  \<^verbatim>\<open>9\<close>.
\<close>

fun hms :: "string \<Rightarrow> (nat \<times> nat \<times> nat) option" where
  "hms [h1, h2, c1, m1, m2, c2, s1, s2] =
     (if is_digit h1 \<and> is_digit h2 \<and> c1 = CHR '':'' \<and> is_digit m1 \<and> is_digit m2
         \<and> c2 = CHR '':'' \<and> is_digit s1 \<and> is_digit s2
      then Some (two_digits h1 h2, two_digits m1 m2, two_digits s1 s2)
      else None)"
| "hms _ = None"

text \<open>
  \<^verbatim>\<open>Series.str.match(r'^\d{2}:\d{2}:\d{2}$', na=False)\<close> on one cell. The cell is a string
  here (the missing case is decided by \<^verbatim>\<open>notna()\<close> before). Python's \<^verbatim>\<open>$\<close> matches at
  the end of the string and also just before one trailing newline.
\<close>

definition str_match_time :: "string \<Rightarrow> bool" where
  "str_match_time s =
     (hms s \<noteq> None \<or> (s \<noteq> [] \<and> last s = CHR 0x0A \<and> hms (butlast s) \<noteq> None))"

text \<open>
  Elapsed seconds past service-day midnight denoted by a clock string of the shape
  \<^verbatim>\<open>dd:dd:dd\<close>, as the schedule feed defines it (hour fields up to 99 allowed). This is the
  reference reading of a time string, not a function of the scripts.
\<close>

definition clock_seconds :: "string \<Rightarrow> nat" where
  "clock_seconds s = (case hms s of Some (h, m, sec) \<Rightarrow> h * 3600 + m * 60 + sec | None \<Rightarrow> 0)"

text \<open>
  A clock string of the shape \<^verbatim>\<open>dd:dd:dd\<close> whose fields are a time of day as \<^verbatim>\<open>%H:%M:%S\<close>
  reads it: hour below 24, minute below 60, second at most 61.
\<close>

definition wall_clock :: "string \<Rightarrow> bool" where
  "wall_clock s = (case hms s of Some (h, m, sec) \<Rightarrow> h < 24 \<and> m < 60 \<and> sec < 62 | None \<Rightarrow> False)"

text \<open>
  \<^verbatim>\<open>pd.to_datetime(cell, format='%H:%M:%S')\<close> compiles the format to the regular expression
  \<^verbatim>\<open>(?P<H>2[0-3]|[0-1]\d|\d):(?P<M>[0-5]\d|\d):(?P<S>6[0-1]|[0-5]\d|\d)\<close> and matches it at
  the start of the string. The three functions below list, for one field, the value and
  the remaining input of each alternative that matches, in the order in which the
  alternatives are tried.
\<close>

fun regex_H :: "string \<Rightarrow> (nat \<times> string) list" where
  "regex_H (a # b # rest) =
     (if a = CHR ''2'' \<and> is_digit b \<and> digit_val b \<le> 3 then [(two_digits a b, rest)] else []) @
     (if is_digit a \<and> digit_val a \<le> 1 \<and> is_digit b then [(two_digits a b, rest)] else []) @
     (if is_digit a then [(digit_val a, b # rest)] else [])"
| "regex_H [a] = (if is_digit a then [(digit_val a, [])] else [])"
| "regex_H [] = []"

fun regex_M :: "string \<Rightarrow> (nat \<times> string) list" where
  "regex_M (a # b # rest) =
     (if is_digit a \<and> digit_val a \<le> 5 \<and> is_digit b then [(two_digits a b, rest)] else []) @
     (if is_digit a then [(digit_val a, b # rest)] else [])"
| "regex_M [a] = (if is_digit a then [(digit_val a, [])] else [])"
| "regex_M [] = []"

fun regex_S :: "string \<Rightarrow> (nat \<times> string) list" where
  "regex_S (a # b # rest) =
     (if a = CHR ''6'' \<and> is_digit b \<and> digit_val b \<le> 1 then [(two_digits a b, rest)] else []) @
     (if is_digit a \<and> digit_val a \<le> 5 \<and> is_digit b then [(two_digits a b, rest)] else []) @
     (if is_digit a then [(digit_val a, b # rest)] else [])"
| "regex_S [a] = (if is_digit a then [(digit_val a, [])] else [])"
| "regex_S [] = []"

text \<open>The literal \<^verbatim>\<open>:\<close> of the format.\<close>

fun regex_colon :: "string \<Rightarrow> string list" where
  "regex_colon (c # rest) = (if c = CHR '':'' then [rest] else [])"
| "regex_colon [] = []"

definition field_colon :: "(string \<Rightarrow> (nat \<times> string) list) \<Rightarrow> string \<Rightarrow> (nat \<times> string) list" where
  "field_colon field s = concat (map (\<lambda>(v, r). map (\<lambda>r'. (v, r')) (regex_colon r)) (field s))"

text \<open>
  The match that the backtracking matcher finds: the first one in the order of the
  alternatives, with the input that it leaves unread.
\<close>

definition format_regex_match :: "string \<Rightarrow> ((nat \<times> nat \<times> nat) \<times> string) option" where
  "format_regex_match s =
     (case concat (map (\<lambda>(h, r1).
             concat (map (\<lambda>(m, r2). map (\<lambda>(sec, r3). ((h, m, sec), r3)) (regex_S r2))
                         (field_colon regex_M r1)))
           (field_colon regex_H s)) of
        [] \<Rightarrow> None
      | found # _ \<Rightarrow> Some found)"

text \<open>The strings that the parser reads as a missing value.\<close>

definition nat_strings :: "string list" where
  "nat_strings = [''NaT'', ''nat'', ''NAT'', ''nan'', ''NaN'', ''NAN'']"

text \<open>
  \<^verbatim>\<open>pd.to_datetime(cell, format='%H:%M:%S')\<close> on one cell. A missing cell, the empty string
  and the strings for a missing value give \<^verbatim>\<open>NaT\<close> (\<^term>\<open>None\<close>). Any other string must
  match the format: no match raises \<^verbatim>\<open>ValueError\<close> (``time data doesn't match format''),
  and so does a match that leaves input unread (``unconverted data remains''). The result
  is a timestamp on the fixed date 1900-01-01, represented by its seconds after that
  midnight; a second field of 60 or 61 runs over into the next minute. One-digit fields
  are accepted, hour fields of 24 and more and minute fields of 60 and more are not.
\<close>

definition to_datetime :: "string option \<Rightarrow> error + int option" where
  "to_datetime cell =
     (case cell of
        None \<Rightarrow> Inr None
      | Some val \<Rightarrow>
          if length val = 0 \<or> val \<in> set nat_strings then Inr None
          else (case format_regex_match val of
                  None \<Rightarrow> Inl ValueError
                | Some ((h, m, sec), rest) \<Rightarrow>
                    if rest \<noteq> [] then Inl ValueError
                    else Inr (Some (int (h * 3600 + m * 60 + sec)))))"

text \<open>
  \<^verbatim>\<open>diff_minutes = (bus_time - ion_time).total_seconds() / 60\<close>. With \<^verbatim>\<open>NaT\<close> on either
  side the difference is \<^verbatim>\<open>NaT\<close> and \<^verbatim>\<open>total_seconds()\<close> is \<^verbatim>\<open>nan\<close> (\<^term>\<open>None\<close>). The
  quotient is a rational: the operands are whole seconds below 86462, so the
  comparisons of the floating-point quotient with an integer bound agree with the exact
  ones.
\<close>

definition diff_minutes :: "int option \<Rightarrow> int option \<Rightarrow> rat option" where
  "diff_minutes bus_time ion_time =
     (case (bus_time, ion_time) of
        (Some d, Some a) \<Rightarrow> Some (of_int (d - a) / 60)
      | _ \<Rightarrow> None)"

text \<open>\<^verbatim>\<open>0 <= diff_minutes <= MAX_TRANSFER_M\<close>; every comparison with \<^verbatim>\<open>nan\<close> is false.\<close>

definition in_transfer_window :: "rat option \<Rightarrow> int \<Rightarrow> bool" where
  "in_transfer_window dm max_transfer_m =
     (case dm of None \<Rightarrow> False | Some q \<Rightarrow> 0 \<le> q \<and> q \<le> of_int max_transfer_m)"

text \<open>
  The wait in minutes between two clock strings read as elapsed seconds: the reference
  value of the specification, \<open>(d - a) / 60\<close>.
\<close>

definition delta_minutes :: "string \<Rightarrow> string \<Rightarrow> rat" where
  "delta_minutes a d = (of_int (int (clock_seconds d) - int (clock_seconds a))) / 60"

subsection \<open>The time-window filter\<close>

text \<open>
  One cell of the mask
  \<^verbatim>\<open>col.notna() & col.str.match(...) & (col >= start) & (col <= end)\<close>.
\<close>

definition time_mask :: "string option \<Rightarrow> string \<Rightarrow> string \<Rightarrow> bool" where
  "time_mask cell window_start window_end =
     (case cell of
        None \<Rightarrow> False
      | Some s \<Rightarrow> str_match_time s \<and> window_start \<le> s \<and> s \<le> window_end)"

text \<open>
  \<^verbatim>\<open>ion_times = st_with_routes[route_id.isin(ion_routes) & mask]\<close> with the mask on
  \<^verbatim>\<open>arrival_time\<close>, and \<^verbatim>\<open>bus_times\<close> with \<^verbatim>\<open>bus_routes\<close> and the mask on
  \<^verbatim>\<open>departure_time\<close>.
\<close>

definition filter_ion_times :: "string list \<Rightarrow> string \<Rightarrow> string \<Rightarrow> stop_time list \<Rightarrow> stop_time list" where
  "filter_ion_times ion_routes window_start window_end st_with_routes =
     filter (\<lambda>r. route_id r \<in> set ion_routes \<and> time_mask (arrival_time r) window_start window_end) st_with_routes"

definition filter_bus_times :: "string list \<Rightarrow> string \<Rightarrow> string \<Rightarrow> stop_time list \<Rightarrow> stop_time list" where
  "filter_bus_times bus_routes window_start window_end st_with_routes =
     filter (\<lambda>r. route_id r \<in> set bus_routes \<and> time_mask (departure_time r) window_start window_end) st_with_routes"

subsection \<open>The spatial join\<close>

text \<open>
  \<^verbatim>\<open>ion_buffers['geometry'] = ion_buffers.buffer(buffer_m)\<close> followed by
  \<^verbatim>\<open>gpd.sjoin(bus_stops, ion_buffers, predicate='within', how='inner')\<close>. Buffering and the
  containment test belong to the geometry library; they enter as the parameter
  \<open>within_buffer\<close>, where \<open>within_buffer p r q\<close> stands for ``point \<open>q\<close> is within the
  buffer of radius \<open>r\<close> around point \<open>p\<close>''; the library's test is \<open>buffer_within\<close> below. The
  inner join has one row for every bus stop and every rail stop whose buffer contains it.
\<close>

definition sjoin_within ::
  "('g \<Rightarrow> int \<Rightarrow> 'g \<Rightarrow> bool) \<Rightarrow> 'g stop list \<Rightarrow> 'g stop list \<Rightarrow> int \<Rightarrow> nearby_row list" where
  "sjoin_within within_buffer bus_stops ion_stops buffer_m =
     concat (map (\<lambda>b. map (\<lambda>i. \<lparr>stop_id_left = stop_id b, stop_id_right = stop_id i\<rparr>)
                          (filter (\<lambda>i. within_buffer (geometry i) buffer_m (geometry b)) ion_stops))
                 bus_stops)"

text \<open>
  The containment test of the geometry library on projected points, from its
  documentation. \<^verbatim>\<open>GeoSeries.buffer(distance)\<close> (default \<^verbatim>\<open>resolution=16\<close>) approximates the
  disc around a point by a polygon with 16 segments to the quarter circle: its 64
  vertices lie on the circle of radius \<open>r\<close> at the angles \<open>j * pi / 32\<close>. The edge
  between two neighbouring vertices has its outward normal at the angle
  \<open>(2 k + 1) * pi / 64\<close> and lies at the distance \<open>r * cos (pi / 64)\<close> from the centre.
  \<^verbatim>\<open>within\<close> holds for a point in the interior of the polygon, not on its boundary: the
  point lies strictly on the inner side of all 64 edges. The vertices are taken exact
  here; the library computes them in floating point.
\<close>

definition buffer_within :: "real \<times> real \<Rightarrow> int \<Rightarrow> real \<times> real \<Rightarrow> bool" where
  "buffer_within p r q =
     list_all (\<lambda>k. (fst q - fst p) * cos ((2 * real k + 1) * pi / 64)
                   + (snd q - snd p) * sin ((2 * real k + 1) * pi / 64)
                   < real_of_int r * cos (pi / 64))
              [0..<64]"

subsection \<open>Pairing arrivals with departures\<close>

text \<open>
  The innermost loop, \<^verbatim>\<open>for _, b_row in bus_dep.iterrows()\<close>: parse the departure, test
  the wait, append to \<^verbatim>\<open>transfers\<close>. An exception ends the whole run.
\<close>

fun bus_loop :: "string \<Rightarrow> int \<Rightarrow> int option \<Rightarrow> stop_time list \<Rightarrow> transfer list \<Rightarrow> error + transfer list" where
  "bus_loop sid max_transfer_m ion_time [] transfers = Inr transfers"
| "bus_loop sid max_transfer_m ion_time (b_row # rest) transfers =
     (case to_datetime (departure_time b_row) of
        Inl e \<Rightarrow> Inl e
      | Inr bus_time \<Rightarrow>
          bus_loop sid max_transfer_m ion_time rest
            (if in_transfer_window (diff_minutes bus_time ion_time) max_transfer_m
             then transfers @ [\<lparr>ion_stop_id = sid, bus_route_id = route_id b_row\<rparr>]
             else transfers))"

text \<open>The loop \<^verbatim>\<open>for _, i_row in ion_arr.iterrows()\<close> around it.\<close>

fun ion_loop :: "string \<Rightarrow> int \<Rightarrow> stop_time list \<Rightarrow> stop_time list \<Rightarrow> transfer list \<Rightarrow> error + transfer list" where
  "ion_loop sid max_transfer_m [] bus_dep transfers = Inr transfers"
| "ion_loop sid max_transfer_m (i_row # rest) bus_dep transfers =
     (case to_datetime (arrival_time i_row) of
        Inl e \<Rightarrow> Inl e
      | Inr ion_time \<Rightarrow>
          (case bus_loop sid max_transfer_m ion_time bus_dep transfers of
             Inl e \<Rightarrow> Inl e
           | Inr transfers' \<Rightarrow> ion_loop sid max_transfer_m rest bus_dep transfers'))"

text \<open>
  The outer loop \<^verbatim>\<open>for _, row in nearby.iterrows()\<close>: select the arrivals at the rail stop
  and the departures at the bus stop, skip the row when either selection is empty.
\<close>

fun nearby_loop :: "stop_time list \<Rightarrow> stop_time list \<Rightarrow> int \<Rightarrow> nearby_row list \<Rightarrow> transfer list \<Rightarrow> error + transfer list" where
  "nearby_loop ion_times bus_times max_transfer_m [] transfers = Inr transfers"
| "nearby_loop ion_times bus_times max_transfer_m (row # rest) transfers =
     (let ion_arr = filter (\<lambda>r. st_stop_id r = stop_id_right row) ion_times;
          bus_dep = filter (\<lambda>r. st_stop_id r = stop_id_left row) bus_times
      in if length ion_arr = 0 \<or> length bus_dep = 0
         then nearby_loop ion_times bus_times max_transfer_m rest transfers
         else (case ion_loop (stop_id_right row) max_transfer_m ion_arr bus_dep transfers of
                 Inl e \<Rightarrow> Inl e
               | Inr transfers' \<Rightarrow> nearby_loop ion_times bus_times max_transfer_m rest transfers'))"

subsection \<open>Aggregation\<close>

text \<open>
  \<^verbatim>\<open>transfers_df.groupby('ion_stop_id')['bus_route_id'].nunique()\<close>: one entry per rail
  stop id present in \<^verbatim>\<open>transfers\<close>, in sorted key order, holding the number of distinct
  route ids of that group.
\<close>

definition groupby_nunique :: "transfer list \<Rightarrow> (string \<times> nat) list" where
  "groupby_nunique transfers =
     map (\<lambda>k. (k, length (remdups (map bus_route_id (filter (\<lambda>t. ion_stop_id t = k) transfers)))))
         (sort (remdups (map ion_stop_id transfers)))"

text \<open>
  \<^verbatim>\<open>if transfers: ... else: xfer_counts = pd.DataFrame(columns=[...])\<close> of the two batch
  scripts.
\<close>

definition xfer_counts_of :: "transfer list \<Rightarrow> (string \<times> nat) list" where
  "xfer_counts_of transfers = (if transfers \<noteq> [] then groupby_nunique transfers else [])"

text \<open>
  \<^verbatim>\<open>ion_stops_wgs.merge(xfer_counts, on='stop_id', how='left')\<close>: every left row is paired
  with each right row of the same key, or with a missing value when there is none.
\<close>

definition merge_left :: "'g stop list \<Rightarrow> (string \<times> nat) list \<Rightarrow> ('g stop \<times> nat option) list" where
  "merge_left ion_stops xfer_counts =
     concat (map (\<lambda>s. case filter (\<lambda>kv. fst kv = stop_id s) xfer_counts of
                         [] \<Rightarrow> [(s, None)]
                       | ms \<Rightarrow> map (\<lambda>kv. (s, Some (snd kv))) ms)
                 ion_stops)"

text \<open>\<^verbatim>\<open>output['bus_xfer_routes'].fillna(0).astype(int)\<close>.\<close>

definition fillna0 :: "('g stop \<times> nat option) list \<Rightarrow> ('g stop \<times> nat) list" where
  "fillna0 rows = map (\<lambda>(s, v). (s, case v of None \<Rightarrow> 0 | Some n \<Rightarrow> n)) rows"

text \<open>
  The interactive script instead starts from a zero column indexed by the rail stop ids
  and overwrites the rows named by \<^verbatim>\<open>xfer_counts.index\<close>:
  \<^verbatim>\<open>result.loc[xfer_counts.index, 'bus_xfer_routes'] = xfer_counts.values\<close>. A label that
  is not in the index raises \<^verbatim>\<open>KeyError\<close>.
\<close>

definition loc_assign :: "(string \<times> nat) list \<Rightarrow> (string \<times> nat) list \<Rightarrow> error + (string \<times> nat) list" where
  "loc_assign result xfer_counts =
     (if \<exists>k \<in> set (map fst xfer_counts). k \<notin> set (map fst result) then Inl KeyError
      else Inr (map (\<lambda>(k, v). case map_of xfer_counts k of Some n \<Rightarrow> (k, n) | None \<Rightarrow> (k, v)) result))"

text \<open>\<^verbatim>\<open>Series.to_dict()\<close>: index label to value, a later row replacing an earlier one.\<close>

definition to_dict :: "(string \<times> nat) list \<Rightarrow> (string \<rightharpoonup> nat)" where
  "to_dict rows = foldl (\<lambda>m (k, v). m(k \<mapsto> v)) Map.empty rows"

subsection \<open>The three entry points\<close>

text \<open>
  \<^verbatim>\<open>calculate_transfers_for_distance\<close> of the interactive script. The module constant
  \<^verbatim>\<open>MAX_TRANSFER_M\<close> (6 in the script) is the argument \<open>max_transfer_m\<close>.
\<close>

definition calculate_transfers_for_distance ::
  "('g \<Rightarrow> int \<Rightarrow> 'g \<Rightarrow> bool) \<Rightarrow> int \<Rightarrow> 'g stop list \<Rightarrow> 'g stop list \<Rightarrow> stop_time list \<Rightarrow> stop_time list
     \<Rightarrow> int \<Rightarrow> error + (string \<rightharpoonup> nat)" where
  "calculate_transfers_for_distance within_buffer max_transfer_m ion_stops bus_stops ion_times bus_times buffer_m =
     (let nearby = sjoin_within within_buffer bus_stops ion_stops buffer_m in
      case nearby_loop ion_times bus_times max_transfer_m nearby [] of
        Inl e \<Rightarrow> Inl e
      | Inr transfers \<Rightarrow>
          (let result = map (\<lambda>s. (stop_id s, 0)) ion_stops in
           if transfers \<noteq> []
           then (case loc_assign result (groupby_nunique transfers) of
                   Inl e \<Rightarrow> Inl e
                 | Inr result' \<Rightarrow> Inr (to_dict result'))
           else Inr (to_dict result)))"

text \<open>
  The part of \<^verbatim>\<open>main\<close> shared by \<^verbatim>\<open>build_transfer_index.py\<close> and \<^verbatim>\<open>ion_bus_connect.py\<close>
  from the time filter to the merged output table. The tables are those that the scripts
  have loaded and restricted to the service day.
\<close>

definition transfer_index ::
  "('g \<Rightarrow> int \<Rightarrow> 'g \<Rightarrow> bool) \<Rightarrow> string list \<Rightarrow> string list \<Rightarrow> 'g stop list \<Rightarrow> 'g stop list \<Rightarrow> stop_time list
     \<Rightarrow> string \<Rightarrow> string \<Rightarrow> int \<Rightarrow> int \<Rightarrow> error + ('g stop \<times> nat) list" where
  "transfer_index within_buffer ion_routes bus_routes ion_stops bus_stops st_with_routes
       window_start window_end buffer_m max_transfer_m =
     (let ion_times = filter_ion_times ion_routes window_start window_end st_with_routes;
          bus_times = filter_bus_times bus_routes window_start window_end st_with_routes;
          nearby = sjoin_within within_buffer bus_stops ion_stops buffer_m
      in case nearby_loop ion_times bus_times max_transfer_m nearby [] of
           Inl e \<Rightarrow> Inl e
         | Inr transfers \<Rightarrow> Inr (fillna0 (merge_left ion_stops (xfer_counts_of transfers))))"

text \<open>
  \<^verbatim>\<open>build_transfer_index.py\<close>: the parameters are the module constants \<^verbatim>\<open>PEAK_START\<close>,
  \<^verbatim>\<open>PEAK_END\<close>, \<^verbatim>\<open>BUFFER_METRES\<close> and \<^verbatim>\<open>MAX_TRANSFER_M\<close>.
\<close>

definition build_transfer_index_main ::
  "('g \<Rightarrow> int \<Rightarrow> 'g \<Rightarrow> bool) \<Rightarrow> string list \<Rightarrow> string list \<Rightarrow> 'g stop list \<Rightarrow> 'g stop list \<Rightarrow> stop_time list
     \<Rightarrow> error + ('g stop \<times> nat) list" where
  "build_transfer_index_main within_buffer ion_routes bus_routes ion_stops bus_stops st_with_routes =
     transfer_index within_buffer ion_routes bus_routes ion_stops bus_stops st_with_routes
       ''07:00:00'' ''09:00:00'' 100 6"

text \<open>
  \<^verbatim>\<open>ion_bus_connect.py\<close>, the index computation of \<^verbatim>\<open>main\<close>: the test of the service ids of
  the date (lines 186 to 191), where the script exits with status 1 when the calendar has
  no service id for the date, and the steps from the time filter to the merged output
  table (lines 241 to 307). The window, the buffer and the transfer time are the parsed
  command-line arguments \<^verbatim>\<open>--time\<close>, \<^verbatim>\<open>--buffer\<close> and \<^verbatim>\<open>--transfer-time\<close> (both
  \<^verbatim>\<open>type=int\<close>, used as given). The other steps of \<^verbatim>\<open>main\<close> are not part of this function
  and their failures are not among its results: argument parsing with the check of
  \<^verbatim>\<open>--date\<close>, download and loading of the tables, the route id lists with
  \<^verbatim>\<open>astype(int)\<close> on the route type column and the stop tables (lines 194 to 239), which
  supply its arguments, and the writing of the files, the map and the summary after line
  307, which use its result.
\<close>

definition ion_bus_connect_main ::
  "('g \<Rightarrow> int \<Rightarrow> 'g \<Rightarrow> bool) \<Rightarrow> string list \<Rightarrow> string list \<Rightarrow> string list \<Rightarrow> 'g stop list \<Rightarrow> 'g stop list
     \<Rightarrow> stop_time list \<Rightarrow> string \<Rightarrow> string \<Rightarrow> int \<Rightarrow> int \<Rightarrow> error + ('g stop \<times> nat) list" where
  "ion_bus_connect_main within_buffer service_ids ion_routes bus_routes ion_stops bus_stops st_with_routes
       time_start time_end buffer transfer_time =
     (if length service_ids = 0 then Inl (SystemExit 1)
      else transfer_index within_buffer ion_routes bus_routes ion_stops bus_stops st_with_routes
             time_start time_end buffer transfer_time)"

section \<open>Reference notions\<close>

text \<open>
  The definitions of this section are not functions of the scripts. They describe what the
  loops compute (which cells parse, which pairs of rows qualify, which records one joined
  row contributes) and the quantities that the specification speaks about; the lemmas below
  relate the loops of the source to them.
\<close>

text \<open>A cell on which \<^const>\<open>to_datetime\<close> returns, and the timestamp it returns then.\<close>

definition parses :: "string option \<Rightarrow> bool" where
  "parses cell = (case to_datetime cell of Inl e \<Rightarrow> False | Inr v \<Rightarrow> True)"

definition stamp :: "string option \<Rightarrow> int option" where
  "stamp cell = (case to_datetime cell of Inl e \<Rightarrow> None | Inr v \<Rightarrow> v)"

text \<open>The test of the innermost loop on one arrival row and one departure row.\<close>

definition qualifies :: "int \<Rightarrow> stop_time \<Rightarrow> stop_time \<Rightarrow> bool" where
  "qualifies max_transfer_m i_row b_row =
     in_transfer_window (diff_minutes (stamp (departure_time b_row)) (stamp (arrival_time i_row))) max_transfer_m"

text \<open>The records that the two inner loops append for one rail stop, in the order of the loops.\<close>

definition pair_transfers :: "string \<Rightarrow> int \<Rightarrow> stop_time list \<Rightarrow> stop_time list \<Rightarrow> transfer list" where
  "pair_transfers sid max_transfer_m ion_arr bus_dep =
     concat (map (\<lambda>i. map (\<lambda>b. \<lparr>ion_stop_id = sid, bus_route_id = route_id b\<rparr>)
                          (filter (qualifies max_transfer_m i) bus_dep)) ion_arr)"

text \<open>
  A joined row is processed without an exception when it is skipped (no arrival or no
  departure selected) or every selected cell parses.
\<close>

definition row_ok :: "stop_time list \<Rightarrow> stop_time list \<Rightarrow> nearby_row \<Rightarrow> bool" where
  "row_ok ion_times bus_times row =
     (let ion_arr = filter (\<lambda>r. st_stop_id r = stop_id_right row) ion_times;
          bus_dep = filter (\<lambda>r. st_stop_id r = stop_id_left row) bus_times
      in ion_arr = [] \<or> bus_dep = [] \<or>
         (list_all (\<lambda>i. parses (arrival_time i)) ion_arr \<and> list_all (\<lambda>b. parses (departure_time b)) bus_dep))"

definition row_transfers :: "stop_time list \<Rightarrow> stop_time list \<Rightarrow> int \<Rightarrow> nearby_row \<Rightarrow> transfer list" where
  "row_transfers ion_times bus_times max_transfer_m row =
     (let ion_arr = filter (\<lambda>r. st_stop_id r = stop_id_right row) ion_times;
          bus_dep = filter (\<lambda>r. st_stop_id r = stop_id_left row) bus_times
      in if ion_arr = [] \<or> bus_dep = [] then []
         else pair_transfers (stop_id_right row) max_transfer_m ion_arr bus_dep)"

definition all_transfers :: "stop_time list \<Rightarrow> stop_time list \<Rightarrow> int \<Rightarrow> nearby_row list \<Rightarrow> transfer list" where
  "all_transfers ion_times bus_times max_transfer_m nearby =
     concat (map (row_transfers ion_times bus_times max_transfer_m) nearby)"

text \<open>
  The number of distinct bus route ids among the transfer records of rail stop \<open>k\<close>: the
  \<open>distinct_route_count\<close> of the specification.
\<close>

definition distinct_route_count :: "transfer list \<Rightarrow> string \<Rightarrow> nat" where
  "distinct_route_count transfers k = card (bus_route_id ` {t \<in> set transfers. ion_stop_id t = k})"

text \<open>A clock string of the shape \<^verbatim>\<open>dd:dd:dd\<close> whose minute and second fields are below 60.\<close>

definition clock_fields_ok :: "string \<Rightarrow> bool" where
  "clock_fields_ok s = (case hms s of Some (h, m, sec) \<Rightarrow> m < 60 \<and> sec < 60 | None \<Rightarrow> False)"

text \<open>
  The rule of the specification on one arrival row and one departure row: both times are
  present and \<open>0 \<le> delta_minutes \<le> max_transfer_minutes\<close>, with the times read as elapsed
  seconds.
\<close>

definition spec_qualifies :: "int \<Rightarrow> stop_time \<Rightarrow> stop_time \<Rightarrow> bool" where
  "spec_qualifies max_transfer_minutes i_row b_row =
     (case (arrival_time i_row, departure_time b_row) of
        (Some a, Some d) \<Rightarrow> 0 \<le> delta_minutes a d \<and> delta_minutes a d \<le> of_int max_transfer_minutes
      | _ \<Rightarrow> False)"

text \<open>A time cell that is missing or holds a time of day.\<close>

definition clean_cell :: "string option \<Rightarrow> bool" where
  "clean_cell cell = (case cell of None \<Rightarrow> True | Some s \<Rightarrow> wall_clock s)"

subsection \<open>Sample inputs\<close>

text \<open>
  A sample geometry for the concrete runs below: integer planar coordinates and the open
  disc, empty for a radius that is not positive (as the library's buffer of a point is).
  It instantiates the geometry parameter on sample points that lie far from every buffer
  boundary; no general result depends on it.
\<close>

definition planar_within :: "int \<times> int \<Rightarrow> int \<Rightarrow> int \<times> int \<Rightarrow> bool" where
  "planar_within p r q = (0 < r \<and> (fst q - fst p)\<^sup>2 + (snd q - snd p)\<^sup>2 < r\<^sup>2)"

definition R1 :: "(int \<times> int) stop" where
  "R1 = \<lparr>stop_id = ''R1'', stop_name = ''Rail 1'', geometry = (0, 0)\<rparr>"

definition R2 :: "(int \<times> int) stop" where
  "R2 = \<lparr>stop_id = ''R2'', stop_name = ''Rail 2'', geometry = (5000, 0)\<rparr>"

definition B1 :: "(int \<times> int) stop" where
  "B1 = \<lparr>stop_id = ''B1'', stop_name = ''Bus 1'', geometry = (50, 0)\<rparr>"

definition B2 :: "(int \<times> int) stop" where
  "B2 = \<lparr>stop_id = ''B2'', stop_name = ''Bus 2'', geometry = (0, 60)\<rparr>"

definition B9 :: "(int \<times> int) stop" where
  "B9 = \<lparr>stop_id = ''B9'', stop_name = ''Bus 9'', geometry = (900, 0)\<rparr>"

text \<open>
  The same rail stop and bus stop as points with real coordinates, for runs with the
  library's containment test, and a bus stop near the rim of the disc of radius 100.
\<close>

definition R1_xy :: "(real \<times> real) stop" where
  "R1_xy = \<lparr>stop_id = ''R1'', stop_name = ''Rail 1'', geometry = (0, 0)\<rparr>"

definition B1_xy :: "(real \<times> real) stop" where
  "B1_xy = \<lparr>stop_id = ''B1'', stop_name = ''Bus 1'', geometry = (50, 0)\<rparr>"

definition B3_xy :: "(real \<times> real) stop" where
  "B3_xy = \<lparr>stop_id = ''B3'', stop_name = ''Bus 3'', geometry = (999 / 10, 4)\<rparr>"

text \<open>A stop-time row with the same arrival and departure time.\<close>

definition sample_row :: "string \<Rightarrow> string \<Rightarrow> string \<Rightarrow> stop_time" where
  "sample_row s r t =
     \<lparr>trip_id = ''T1'', st_stop_id = s, route_id = r, arrival_time = Some t, departure_time = Some t\<rparr>"

section \<open>The loops and the aggregation in closed form\<close>

lemma to_datetime_cases:
  "to_datetime cell = (if parses cell then Inr (stamp cell) else Inl ValueError)"
  by (auto simp: to_datetime_def parses_def stamp_def split: option.splits prod.splits)

lemma qualifies_fun:
  "qualifies m i = (\<lambda>b. in_transfer_window (diff_minutes (stamp (departure_time b)) (stamp (arrival_time i))) m)"
  by (simp add: fun_eq_iff qualifies_def)

lemma bus_loop_eq:
  "bus_loop sid m it bs acc =
     (if list_all (\<lambda>b. parses (departure_time b)) bs
      then Inr (acc @ map (\<lambda>b. \<lparr>ion_stop_id = sid, bus_route_id = route_id b\<rparr>)
                  (filter (\<lambda>b. in_transfer_window (diff_minutes (stamp (departure_time b)) it) m) bs))
      else Inl ValueError)"
  by (induction bs arbitrary: acc) (simp_all add: to_datetime_cases)

lemma ion_loop_eq:
  "ion_loop sid m arr dep acc =
     (if arr = [] \<or> (list_all (\<lambda>i. parses (arrival_time i)) arr \<and> list_all (\<lambda>b. parses (departure_time b)) dep)
      then Inr (acc @ pair_transfers sid m arr dep)
      else Inl ValueError)"
proof (induction arr arbitrary: acc)
  case Nil
  show ?case by (simp add: pair_transfers_def)
next
  case (Cons i arr)
  show ?case
    by (simp add: Cons.IH to_datetime_cases bus_loop_eq pair_transfers_def qualifies_fun)
qed

lemma nearby_loop_step:
  "nearby_loop ion_times bus_times m (row # rows) acc =
     (if row_ok ion_times bus_times row
      then nearby_loop ion_times bus_times m rows (acc @ row_transfers ion_times bus_times m row)
      else Inl ValueError)"
  by (auto simp add: ion_loop_eq row_ok_def row_transfers_def Let_def)

lemma nearby_loop_eq:
  "nearby_loop ion_times bus_times m rows acc =
     (if list_all (row_ok ion_times bus_times) rows
      then Inr (acc @ concat (map (row_transfers ion_times bus_times m) rows))
      else Inl ValueError)"
proof (induction rows arbitrary: acc)
  case Nil
  show ?case by simp
next
  case (Cons row rows)
  show ?case
    by (simp only: nearby_loop_step Cons.IH) simp
qed

lemma map_of_keyed:
  "map_of (map (\<lambda>k. (k, f k)) ks) k = (if k \<in> set ks then Some (f k) else None)"
  by (induction ks) auto

lemma groupby_nunique_lookup:
  "map_of (groupby_nunique ts) k =
     (if k \<in> ion_stop_id ` set ts then Some (distinct_route_count ts k) else None)"
proof -
  have "set (map bus_route_id (filter (\<lambda>t. ion_stop_id t = k) ts))
          = bus_route_id ` {t \<in> set ts. ion_stop_id t = k}"
    by auto
  then have "length (remdups (map bus_route_id (filter (\<lambda>t. ion_stop_id t = k) ts)))
          = distinct_route_count ts k"
    unfolding distinct_route_count_def length_remdups_card_conv by simp
  then show ?thesis
    unfolding groupby_nunique_def map_of_keyed by simp
qed

lemma groupby_nunique_keys:
  "map fst (groupby_nunique ts) = sort (remdups (map ion_stop_id ts))"
  by (simp add: groupby_nunique_def comp_def)

lemma distinct_groupby_nunique: "distinct (map fst (groupby_nunique ts))"
  by (simp add: groupby_nunique_keys)

lemma distinct_route_count_absent:
  "k \<notin> ion_stop_id ` set ts \<Longrightarrow> distinct_route_count ts k = 0"
proof -
  assume "k \<notin> ion_stop_id ` set ts"
  then have "{t \<in> set ts. ion_stop_id t = k} = {}" by auto
  then show ?thesis by (simp add: distinct_route_count_def)
qed

lemma filter_key_distinct:
  "distinct (map fst xs) \<Longrightarrow>
     filter (\<lambda>kv. fst kv = a) xs = (case map_of xs a of None \<Rightarrow> [] | Some v \<Rightarrow> [(a, v)])"
proof (induction xs)
  case Nil
  show ?case by simp
next
  case (Cons x xs)
  obtain k v where x: "x = (k, v)" by (cases x)
  from Cons.prems x have nk: "k \<notin> fst ` set xs" and d: "distinct (map fst xs)" by auto
  show ?case
  proof (cases "k = a")
    case True
    with nk have "filter (\<lambda>kv. fst kv = a) xs = []"
      by (auto simp: filter_empty_conv)
    with True x show ?thesis by simp
  next
    case False
    with x Cons.IH[OF d] show ?thesis by simp
  qed
qed

lemma merge_left_counts:
  "fillna0 (merge_left ion_stops (xfer_counts_of ts))
     = map (\<lambda>s. (s, distinct_route_count ts (stop_id s))) ion_stops"
proof (cases "ts = []")
  case True
  then show ?thesis
    by (simp add: xfer_counts_of_def merge_left_def fillna0_def distinct_route_count_def comp_def)
next
  case False
  have row: "(case filter (\<lambda>kv. fst kv = stop_id s) (groupby_nunique ts) of
               [] \<Rightarrow> [(s, None)] | ms \<Rightarrow> map (\<lambda>kv. (s, Some (snd kv))) ms)
             = [(s, if stop_id s \<in> ion_stop_id ` set ts
                    then Some (distinct_route_count ts (stop_id s)) else None)]" for s :: "'a stop"
    by (simp add: filter_key_distinct[OF distinct_groupby_nunique] groupby_nunique_lookup)
  have "merge_left ion_stops (groupby_nunique ts)
          = map (\<lambda>s. (s, if stop_id s \<in> ion_stop_id ` set ts
                            then Some (distinct_route_count ts (stop_id s)) else None)) ion_stops"
    unfolding merge_left_def row by (induction ion_stops) simp_all
  with False show ?thesis
    by (simp add: xfer_counts_of_def fillna0_def distinct_route_count_absent)
qed

lemma to_dict_foldl:
  "foldl (\<lambda>m (k, v). m(k \<mapsto> v)) m0 (map (\<lambda>k. (k, f k)) ks)
     = (\<lambda>k. if k \<in> set ks then Some (f k) else m0 k)"
  by (induction ks arbitrary: m0) (auto simp: fun_eq_iff)

lemma to_dict_keyed:
  "to_dict (map (\<lambda>s. (g s, f (g s))) xs) = (\<lambda>k. if k \<in> g ` set xs then Some (f k) else None)"
proof -
  have "map (\<lambda>s. (g s, f (g s))) xs = map (\<lambda>k. (k, f k)) (map g xs)"
    by simp
  then show ?thesis
    unfolding to_dict_def by (simp only: to_dict_foldl) simp
qed

lemma set_sjoin_within:
  "set (sjoin_within w bus_stops ion_stops r) =
     {\<lparr>stop_id_left = stop_id b, stop_id_right = stop_id i\<rparr> | b i.
        b \<in> set bus_stops \<and> i \<in> set ion_stops \<and> w (geometry i) r (geometry b)}"
  by (auto simp: sjoin_within_def)

lemma row_transfers_stop:
  "t \<in> set (row_transfers ion_times bus_times m row) \<Longrightarrow> ion_stop_id t = stop_id_right row"
  by (auto simp: row_transfers_def pair_transfers_def Let_def split: if_splits)

lemma all_transfers_stop:
  "t \<in> set (all_transfers ion_times bus_times m nearby) \<Longrightarrow>
     \<exists>row \<in> set nearby. ion_stop_id t = stop_id_right row"
  by (auto simp: all_transfers_def dest: row_transfers_stop)

lemma all_transfers_sjoin_stop:
  "t \<in> set (all_transfers ion_times bus_times m (sjoin_within w bus_stops ion_stops r)) \<Longrightarrow>
     ion_stop_id t \<in> stop_id ` set ion_stops"
  by (auto dest!: all_transfers_stop simp: set_sjoin_within)

lemma loc_assign_counts:
  assumes "ion_stop_id ` set ts \<subseteq> stop_id ` set ion_stops"
  shows "loc_assign (map (\<lambda>s. (stop_id s, 0)) ion_stops) (groupby_nunique ts)
           = Inr (map (\<lambda>s. (stop_id s, distinct_route_count ts (stop_id s))) ion_stops)"
proof -
  have keys: "set (map fst (groupby_nunique ts)) = ion_stop_id ` set ts"
    by (simp add: groupby_nunique_keys)
  have idx: "set (map fst (map (\<lambda>s. (stop_id s, 0::nat)) ion_stops)) = stop_id ` set ion_stops"
    by (simp add: comp_def)
  have ok: "\<not> (\<exists>k \<in> set (map fst (groupby_nunique ts)).
              k \<notin> set (map fst (map (\<lambda>s. (stop_id s, 0::nat)) ion_stops)))"
    unfolding keys idx using assms by blast
  have "map (\<lambda>(k, v). case map_of (groupby_nunique ts) k of Some n \<Rightarrow> (k, n) | None \<Rightarrow> (k, v))
            (map (\<lambda>s. (stop_id s, 0)) ion_stops)
          = map (\<lambda>s. (stop_id s, distinct_route_count ts (stop_id s))) ion_stops"
    by (simp add: groupby_nunique_lookup distinct_route_count_absent)
  with ok show ?thesis
    unfolding loc_assign_def by simp
qed

lemma calculate_transfers_for_distance_eq:
  "calculate_transfers_for_distance w m ion_stops bus_stops ion_times bus_times r =
     (if list_all (row_ok ion_times bus_times) (sjoin_within w bus_stops ion_stops r)
      then Inr (\<lambda>k. if k \<in> stop_id ` set ion_stops
                     then Some (distinct_route_count
                                  (all_transfers ion_times bus_times m (sjoin_within w bus_stops ion_stops r)) k)
                     else None)
      else Inl ValueError)"
proof -
  let ?nearby = "sjoin_within w bus_stops ion_stops r"
  let ?ts = "all_transfers ion_times bus_times m ?nearby"
  have sub: "ion_stop_id ` set ?ts \<subseteq> stop_id ` set ion_stops"
    using all_transfers_sjoin_stop by blast
  have zero: "to_dict (map (\<lambda>s. (stop_id s, 0::nat)) ion_stops)
                = (\<lambda>k. if k \<in> stop_id ` set ion_stops then Some 0 else None)"
    using to_dict_keyed[of stop_id "\<lambda>k. 0" ion_stops] by simp
  have empty: "distinct_route_count [] k = 0" for k
    by (simp add: distinct_route_count_def)
  show ?thesis
  proof (cases "list_all (row_ok ion_times bus_times) ?nearby")
    case False
    then show ?thesis
      by (simp add: calculate_transfers_for_distance_def nearby_loop_eq)
  next
    case True
    then have loop: "nearby_loop ion_times bus_times m ?nearby [] = Inr ?ts"
      by (simp add: nearby_loop_eq all_transfers_def)
    show ?thesis
    proof (cases "?ts = []")
      case e: True
      have "calculate_transfers_for_distance w m ion_stops bus_stops ion_times bus_times r
              = Inr (to_dict (map (\<lambda>s. (stop_id s, 0)) ion_stops))"
        unfolding calculate_transfers_for_distance_def Let_def loop using e by simp
      with True e show ?thesis
        by (simp add: zero empty cong: if_cong)
    next
      case ne: False
      have "calculate_transfers_for_distance w m ion_stops bus_stops ion_times bus_times r
              = Inr (to_dict (map (\<lambda>s. (stop_id s, distinct_route_count ?ts (stop_id s))) ion_stops))"
        unfolding calculate_transfers_for_distance_def Let_def loop using ne
        by (simp add: loc_assign_counts[OF sub])
      with True show ?thesis
        by (simp add: to_dict_keyed)
    qed
  qed
qed

lemma transfer_index_eq:
  "transfer_index w ion_routes bus_routes ion_stops bus_stops st_with_routes ws we r m =
     (let ion_times = filter_ion_times ion_routes ws we st_with_routes;
          bus_times = filter_bus_times bus_routes ws we st_with_routes;
          nearby = sjoin_within w bus_stops ion_stops r
      in if list_all (row_ok ion_times bus_times) nearby
         then Inr (map (\<lambda>s. (s, distinct_route_count (all_transfers ion_times bus_times m nearby) (stop_id s)))
                       ion_stops)
         else Inl ValueError)"
  by (simp add: transfer_index_def Let_def nearby_loop_eq merge_left_counts all_transfers_def)

lemma set_row_transfers:
  "set (row_transfers ion_times bus_times m row) =
     {\<lparr>ion_stop_id = stop_id_right row, bus_route_id = route_id b\<rparr> | i b.
        i \<in> set ion_times \<and> st_stop_id i = stop_id_right row \<and>
        b \<in> set bus_times \<and> st_stop_id b = stop_id_left row \<and> qualifies m i b}"
  by (auto simp: row_transfers_def pair_transfers_def Let_def filter_empty_conv)

lemma set_all_transfers:
  "set (all_transfers ion_times bus_times m nearby) =
     {\<lparr>ion_stop_id = stop_id_right row, bus_route_id = route_id b\<rparr> | row i b.
        row \<in> set nearby \<and>
        i \<in> set ion_times \<and> st_stop_id i = stop_id_right row \<and>
        b \<in> set bus_times \<and> st_stop_id b = stop_id_left row \<and> qualifies m i b}"
  unfolding all_transfers_def set_concat set_map image_image set_row_transfers by blast

lemma row_ok_iff:
  "row_ok ion_times bus_times row \<longleftrightarrow>
     (\<forall>i \<in> set ion_times. st_stop_id i \<noteq> stop_id_right row) \<or>
     (\<forall>b \<in> set bus_times. st_stop_id b \<noteq> stop_id_left row) \<or>
     ((\<forall>i \<in> set ion_times. st_stop_id i = stop_id_right row \<longrightarrow> parses (arrival_time i)) \<and>
      (\<forall>b \<in> set bus_times. st_stop_id b = stop_id_left row \<longrightarrow> parses (departure_time b)))"
  by (auto simp: row_ok_def Let_def filter_empty_conv list_all_iff)

lemma row_ok_cong_set:
  "set ion_times = set ion_times' \<Longrightarrow> set bus_times = set bus_times' \<Longrightarrow>
     row_ok ion_times bus_times row = row_ok ion_times' bus_times' row"
  by (simp add: row_ok_iff)

lemma all_transfers_cong_set:
  "set ion_times = set ion_times' \<Longrightarrow> set bus_times = set bus_times' \<Longrightarrow> set nearby = set nearby' \<Longrightarrow>
     set (all_transfers ion_times bus_times m nearby) = set (all_transfers ion_times' bus_times' m nearby')"
  by (simp add: set_all_transfers)

lemma distinct_route_count_cong_set:
  "set ts = set ts' \<Longrightarrow> distinct_route_count ts k = distinct_route_count ts' k"
  by (simp add: distinct_route_count_def)

lemma distinct_route_count_mono:
  assumes "set ts \<subseteq> set ts'"
  shows "distinct_route_count ts k \<le> distinct_route_count ts' k"
proof -
  have "bus_route_id ` {t \<in> set ts. ion_stop_id t = k} \<subseteq> bus_route_id ` {t \<in> set ts'. ion_stop_id t = k}"
    using assms by blast
  then show ?thesis
    unfolding distinct_route_count_def by (intro card_mono) simp_all
qed

lemma in_transfer_window_mono:
  "t1 \<le> t2 \<Longrightarrow> in_transfer_window dm t1 \<Longrightarrow> in_transfer_window dm t2"
  by (cases dm) (auto simp: in_transfer_window_def intro: order_trans)

lemma qualifies_mono: "t1 \<le> t2 \<Longrightarrow> qualifies t1 i b \<Longrightarrow> qualifies t2 i b"
  unfolding qualifies_def by (rule in_transfer_window_mono)

lemma all_transfers_mono:
  assumes "t1 \<le> t2" and "set nearby \<subseteq> set nearby'"
  shows "set (all_transfers ion_times bus_times t1 nearby) \<subseteq> set (all_transfers ion_times bus_times t2 nearby')"
  unfolding set_all_transfers using assms qualifies_mono[OF assms(1)] by blast



lemma set_sjoin_within_mono:
  assumes "\<And>p q. w p r1 q \<Longrightarrow> w p r2 q"
  shows "set (sjoin_within w bus_stops ion_stops r1) \<subseteq> set (sjoin_within w bus_stops ion_stops r2)"
  unfolding set_sjoin_within using assms by blast

section \<open>Clock strings: lexicographic and numeric order\<close>

lemma hms_SomeD:
  assumes "hms s = Some (h, m, x)"
  obtains h1 h2 m1 m2 s1 s2 where
    "s = [h1, h2, CHR '':'', m1, m2, CHR '':'', s1, s2]"
    "is_digit h1" "is_digit h2" "is_digit m1" "is_digit m2" "is_digit s1" "is_digit s2"
    "h = two_digits h1 h2" "m = two_digits m1 m2" "x = two_digits s1 s2"
  using assms by (cases s rule: hms.cases) (auto split: if_splits)

lemma digit_less: "is_digit a \<Longrightarrow> is_digit b \<Longrightarrow> a < b \<longleftrightarrow> digit_val a < digit_val b"
  by (auto simp: is_digit_def digit_val_def less_char_def)

lemma digit_eq: "is_digit a \<Longrightarrow> is_digit b \<Longrightarrow> a = b \<longleftrightarrow> digit_val a = digit_val b"
proof -
  assume d: "is_digit a" "is_digit b"
  have n: "(of_char a :: nat) = of_char b \<longleftrightarrow> digit_val a = digit_val b"
    using d unfolding is_digit_def digit_val_def by arith
  have "a = b \<longleftrightarrow> (of_char a :: nat) = of_char b" by simp
  with n show ?thesis by (simp only:)
qed

lemma digit_val_less_10: "is_digit a \<Longrightarrow> digit_val a < 10"
  by (auto simp: is_digit_def digit_val_def)

lemma two_digits_lex:
  assumes "is_digit a" "is_digit b" "is_digit c" "is_digit d"
  shows "(a < c \<or> a = c \<and> (b < d \<or> b = d \<and> X)) \<longleftrightarrow>
         (two_digits a b < two_digits c d \<or> two_digits a b = two_digits c d \<and> X)"
proof -
  have b: "digit_val a < 10" "digit_val b < 10" "digit_val c < 10" "digit_val d < 10"
    using assms by (simp_all add: digit_val_less_10)
  show ?thesis
    unfolding digit_less[OF assms(1,3)] digit_eq[OF assms(1,3)]
      digit_less[OF assms(2,4)] digit_eq[OF assms(2,4)] two_digits_def
    using b by (cases X) auto
qed

lemma clock_le_fields:
  assumes "hms s = Some (h, m, x)" and "hms t = Some (h', m', x')"
  shows "s \<le> t \<longleftrightarrow> h < h' \<or> h = h' \<and> (m < m' \<or> m = m' \<and> x \<le> x')"
proof -
  from assms(1) obtain h1 h2 m1 m2 s1 s2 where
    s: "s = [h1, h2, CHR '':'', m1, m2, CHR '':'', s1, s2]"
    and ds: "is_digit h1" "is_digit h2" "is_digit m1" "is_digit m2" "is_digit s1" "is_digit s2"
    and vs: "h = two_digits h1 h2" "m = two_digits m1 m2" "x = two_digits s1 s2"
    by (rule hms_SomeD)
  from assms(2) obtain k1 k2 n1 n2 t1 t2 where
    t: "t = [k1, k2, CHR '':'', n1, n2, CHR '':'', t1, t2]"
    and dt: "is_digit k1" "is_digit k2" "is_digit n1" "is_digit n2" "is_digit t1" "is_digit t2"
    and vt: "h' = two_digits k1 k2" "m' = two_digits n1 n2" "x' = two_digits t1 t2"
    by (rule hms_SomeD)
  have sec: "(s1 < t1 \<or> s1 = t1 \<and> (s2 < t2 \<or> s2 = t2 \<and> True)) \<longleftrightarrow> x \<le> x'"
    unfolding two_digits_lex[OF ds(5,6) dt(5,6)] vs vt by auto
  have "s \<le> t \<longleftrightarrow>
    (h1 < k1 \<or> h1 = k1 \<and> (h2 < k2 \<or> h2 = k2 \<and>
      (m1 < n1 \<or> m1 = n1 \<and> (m2 < n2 \<or> m2 = n2 \<and>
        (s1 < t1 \<or> s1 = t1 \<and> (s2 < t2 \<or> s2 = t2 \<and> True))))))"
    unfolding s t by simp
  also have "\<dots> \<longleftrightarrow> h < h' \<or> h = h' \<and> (m < m' \<or> m = m' \<and> x \<le> x')"
    unfolding sec two_digits_lex[OF ds(3,4) dt(3,4)] two_digits_lex[OF ds(1,2) dt(1,2)] vs vt ..
  finally show ?thesis .
qed

lemma fields_lex_seconds:
  fixes h m x h' m' x' :: nat
  assumes "m < 60" "x < 60" "m' < 60" "x' < 60"
  shows "(h < h' \<or> h = h' \<and> (m < m' \<or> m = m' \<and> x \<le> x')) \<longleftrightarrow>
         h * 3600 + m * 60 + x \<le> h' * 3600 + m' * 60 + x'"
  using assms by arith

lemma clock_le_seconds:
  assumes "clock_fields_ok s" "clock_fields_ok t"
  shows "s \<le> t \<longleftrightarrow> clock_seconds s \<le> clock_seconds t"
proof -
  from assms(1) obtain h m x where s: "hms s = Some (h, m, x)" and bs: "m < 60" "x < 60"
    by (auto simp: clock_fields_ok_def split: option.splits)
  from assms(2) obtain h' m' x' where t: "hms t = Some (h', m', x')" and bt: "m' < 60" "x' < 60"
    by (auto simp: clock_fields_ok_def split: option.splits)
  show ?thesis
    unfolding clock_le_fields[OF s t] fields_lex_seconds[OF bs bt]
    by (simp add: clock_seconds_def s t)
qed

section \<open>The buffer polygon\<close>

lemma buffer_within_iff:
  "buffer_within p r q \<longleftrightarrow>
     (\<forall>k<64. (fst q - fst p) * cos ((2 * real k + 1) * pi / 64)
              + (snd q - snd p) * sin ((2 * real k + 1) * pi / 64)
              < real_of_int r * cos (pi / 64))"
  by (auto simp: buffer_within_def list_all_iff)

lemma cos_pi_64_pos: "0 < cos (pi / 64)"
  by (rule cos_gt_zero_pi) (use pi_gt_zero in simp_all)

lemma buffer_within_mono:
  assumes "r1 \<le> r2" and "buffer_within p r1 q"
  shows "buffer_within p r2 q"
proof -
  have "real_of_int r1 * cos (pi / 64) \<le> real_of_int r2 * cos (pi / 64)"
    using assms(1) cos_pi_64_pos by (simp add: mult_right_mono)
  with assms(2) show ?thesis
    unfolding buffer_within_iff by fastforce
qed

lemma buffer_within_radius_pos:
  assumes "buffer_within p r q"
  shows "0 < r"
proof -
  let ?x = "fst q - fst p" and ?y = "snd q - snd p"
  from assms have a: "?x * cos (pi / 64) + ?y * sin (pi / 64) < real_of_int r * cos (pi / 64)"
    unfolding buffer_within_iff by (drule_tac x = 0 in spec) simp
  have e: "65 * pi / 64 = pi / 64 + pi"
    by simp
  have c: "cos (65 * pi / 64) = - cos (pi / 64)" "sin (65 * pi / 64) = - sin (pi / 64)"
    unfolding e by (rule cos_periodic_pi, rule sin_periodic_pi)
  from assms have "?x * cos (65 * pi / 64) + ?y * sin (65 * pi / 64) < real_of_int r * cos (pi / 64)"
    unfolding buffer_within_iff by (drule_tac x = 32 in spec) simp
  then have b: "- (?x * cos (pi / 64)) - ?y * sin (pi / 64) < real_of_int r * cos (pi / 64)"
    unfolding c by simp
  from a b have "0 < real_of_int r * cos (pi / 64)"
    by linarith
  with cos_pi_64_pos show ?thesis
    by (simp add: zero_less_mult_iff)
qed

lemma dot_le_norm:
  fixes x y a b :: real
  assumes "a\<^sup>2 + b\<^sup>2 = 1"
  shows "x * a + y * b \<le> sqrt (x\<^sup>2 + y\<^sup>2)"
proof -
  have "(x * a + y * b)\<^sup>2 + (x * b - y * a)\<^sup>2 = (x\<^sup>2 + y\<^sup>2) * (a\<^sup>2 + b\<^sup>2)"
    by (simp add: power2_eq_square algebra_simps)
  then have "(x * a + y * b)\<^sup>2 \<le> x\<^sup>2 + y\<^sup>2"
    using assms by (metis mult.right_neutral le_add_same_cancel1 zero_le_power2)
  then have "sqrt ((x * a + y * b)\<^sup>2) \<le> sqrt (x\<^sup>2 + y\<^sup>2)"
    by (rule real_sqrt_le_mono)
  then have "\<bar>x * a + y * b\<bar> \<le> sqrt (x\<^sup>2 + y\<^sup>2)"
    by (simp only: real_sqrt_abs)
  then show ?thesis by linarith
qed

lemma buffer_within_inner:
  assumes "sqrt ((fst q - fst p)\<^sup>2 + (snd q - snd p)\<^sup>2) < real_of_int r * cos (pi / 64)"
  shows "buffer_within p r q"
  unfolding buffer_within_iff
proof (intro allI impI)
  fix k :: nat
  let ?a = "(2 * real k + 1) * pi / 64"
  have "(fst q - fst p) * cos ?a + (snd q - snd p) * sin ?a
          \<le> sqrt ((fst q - fst p)\<^sup>2 + (snd q - snd p)\<^sup>2)"
    by (rule dot_le_norm) simp
  with assms show "(fst q - fst p) * cos ?a + (snd q - snd p) * sin ?a < real_of_int r * cos (pi / 64)"
    by linarith
qed

lemma cos_pi_64_lower: "511 / 512 \<le> cos (pi / 64)"
proof -
  let ?y = "pi / 128"
  have y: "0 \<le> ?y" "?y \<le> 1 / 32"
    using pi_gt_zero pi_less_4 by simp_all
  have s1: "0 \<le> sin ?y"
    by (rule sin_ge_zero) (use pi_gt_zero in simp_all)
  have s2: "sin ?y \<le> ?y"
    by (rule sin_x_le_x) (use pi_gt_zero in simp)
  note s = s1 s2
  have "(sin ?y)\<^sup>2 \<le> (1 / 32)\<^sup>2"
    using s y by (intro power_mono) linarith+
  moreover have "cos (pi / 64) = 1 - 2 * (sin ?y)\<^sup>2"
    using cos_double_sin[of ?y] by simp
  ultimately show ?thesis
    by (simp add: power2_eq_square)
qed

lemma buffer_within_near:
  assumes "0 < r" and "512 * sqrt ((fst q - fst p)\<^sup>2 + (snd q - snd p)\<^sup>2) < 511 * real_of_int r"
  shows "buffer_within p r q"
proof (rule buffer_within_inner)
  have "511 / 512 * real_of_int r \<le> cos (pi / 64) * real_of_int r"
    using assms(1) cos_pi_64_lower by (intro mult_right_mono) simp_all
  with assms(2) show "sqrt ((fst q - fst p)\<^sup>2 + (snd q - snd p)\<^sup>2) < real_of_int r * cos (pi / 64)"
    by (simp add: mult.commute)
qed


lemma div_eq_timesD:
  fixes a b c :: real
  shows "0 < c \<Longrightarrow> a / c = b \<Longrightarrow> a = c * b"
  by (simp add: field_simps)

lemma buffer_within_disc:
  assumes "buffer_within p r q"
  shows "(fst q - fst p)\<^sup>2 + (snd q - snd p)\<^sup>2 < (real_of_int r)\<^sup>2"
proof -
  let ?x = "fst q - fst p" and ?y = "snd q - snd p"
  let ?rho = "sqrt (?x\<^sup>2 + ?y\<^sup>2)"
  have r: "0 < real_of_int r"
    using buffer_within_radius_pos[OF assms] by simp
  show ?thesis
  proof (cases "?x\<^sup>2 + ?y\<^sup>2 = 0")
    case True
    with r show ?thesis by simp
  next
    case False
    then have rho: "0 < ?rho"
      by (simp add: sum_power2_gt_zero_iff less_le)
    have sq: "?rho\<^sup>2 = ?x\<^sup>2 + ?y\<^sup>2"
      by simp
    have "(?x / ?rho)\<^sup>2 + (?y / ?rho)\<^sup>2 = (?x\<^sup>2 + ?y\<^sup>2) / ?rho\<^sup>2"
      by (simp only: power_divide add_divide_distrib)
    also have "\<dots> = 1"
      unfolding sq using False by simp
    finally obtain t where t: "0 \<le> t" "t < 2 * pi" and xt: "?x / ?rho = cos t" and yt: "?y / ?rho = sin t"
      by (rule sincos_total_2pi)
    have x: "?x = ?rho * cos t"
      by (rule div_eq_timesD[OF rho xt])
    have y: "?y = ?rho * sin t"
      by (rule div_eq_timesD[OF rho yt])
    define k where "k = nat \<lfloor>t * 32 / pi\<rfloor>"
    have nn: "0 \<le> t * 32 / pi"
      using t(1) pi_gt_zero by simp
    then have kf: "real k = of_int \<lfloor>t * 32 / pi\<rfloor>"
      unfolding k_def by simp
    have lo: "real k \<le> t * 32 / pi" and hi: "t * 32 / pi < real k + 1"
      unfolding kf by linarith+
    have "t * 32 / pi < 64"
      using t(2) pi_gt_zero by (simp add: field_simps)
    with lo have "real k < 64" by linarith
    then have k64: "k < 64" by simp
    let ?a = "(2 * real k + 1) * pi / 64"
    from lo hi have "real k * pi \<le> t * 32" "t * 32 < (real k + 1) * pi"
      using pi_gt_zero by (simp_all add: field_simps)
    then have d: "\<bar>t - ?a\<bar> \<le> pi / 64"
      by (simp add: abs_le_iff field_simps)
    have "cos (pi / 64) \<le> cos \<bar>t - ?a\<bar>"
      by (rule cos_monotone_0_pi_le) (use d pi_gt_zero in simp_all)
    then have c: "cos (pi / 64) \<le> cos (t - ?a)"
      by simp
    from assms k64 have "?x * cos ?a + ?y * sin ?a < real_of_int r * cos (pi / 64)"
      unfolding buffer_within_iff by blast
    moreover have "?x * cos ?a + ?y * sin ?a = ?rho * cos (t - ?a)"
      by (subst x, subst y) (simp add: cos_diff algebra_simps)
    ultimately have "?rho * cos (t - ?a) < real_of_int r * cos (pi / 64)"
      by simp
    moreover have "?rho * cos (pi / 64) \<le> ?rho * cos (t - ?a)"
      using c rho by (simp add: mult_left_mono)
    ultimately have "?rho * cos (pi / 64) < real_of_int r * cos (pi / 64)"
      by linarith
    then have "?rho < real_of_int r"
      using cos_pi_64_pos by simp
    then have "?rho\<^sup>2 < (real_of_int r)\<^sup>2"
      using rho by (intro power_strict_mono) simp_all
    then show ?thesis
      by simp
  qed
qed

lemma sin_pi_64_lower: "3 / 100 \<le> sin (pi / 64)"
proof -
  let ?x = "pi / 64"
  have x: "1 / 32 \<le> ?x" "?x \<le> 1 / 16" "0 \<le> ?x"
    using pi_ge_two pi_less_4 by simp_all
  have m: "\<bar>sin ?x - (\<Sum>m<3. sin_coeff m * ?x ^ m)\<bar> \<le> inverse (fact 3) * \<bar>?x\<bar> ^ 3"
    by (rule Maclaurin_sin_bound)
  have s: "(\<Sum>m<3. sin_coeff m * ?x ^ m) = ?x"
    by (simp add: numeral_3_eq_3 sin_coeff_def)
  have f: "inverse (fact 3) * \<bar>?x\<bar> ^ 3 = ?x ^ 3 / 6"
    using x(3) by (simp add: fact_numeral)
  from m have "\<bar>sin ?x - ?x\<bar> \<le> ?x ^ 3 / 6"
    unfolding s f .
  then have b: "?x - ?x ^ 3 / 6 \<le> sin ?x"
    by linarith
  have "?x ^ 3 \<le> (1 / 16) ^ 3"
    using x by (intro power_mono) simp_all
  with x(1) b show ?thesis
    by (simp add: power3_eq_cube)
qed

lemma buffer_within_rim_sample: "\<not> buffer_within (0, 0) 100 (999 / 10, 4)"
proof
  assume "buffer_within (0, 0) 100 (999 / 10, 4)"
  then have "(999 / 10) * cos (pi / 64) + 4 * sin (pi / 64) < 100 * cos (pi / 64)"
    unfolding buffer_within_iff by (drule_tac x = 0 in spec) simp
  moreover have "cos (pi / 64) \<le> 1"
    by simp
  ultimately show False
    using sin_pi_64_lower by linarith
qed

section \<open>Evaluation on sample inputs\<close>

lemmas sample_defs = planar_within_def R1_def R2_def B1_def B2_def B9_def sample_row_def
  R1_xy_def B1_xy_def B3_xy_def

lemmas run_defs = calculate_transfers_for_distance_def transfer_index_def ion_bus_connect_main_def
  build_transfer_index_main_def
  sjoin_within_def filter_ion_times_def filter_bus_times_def time_mask_def str_match_time_def
  to_datetime_def format_regex_match_def field_colon_def nat_strings_def
  diff_minutes_def in_transfer_window_def groupby_nunique_def xfer_counts_of_def
  merge_left_def fillna0_def loc_assign_def to_dict_def is_digit_def two_digits_def digit_val_def

lemmas clock_defs = is_digit_def two_digits_def digit_val_def clock_seconds_def delta_minutes_def
  wall_clock_def clock_fields_ok_def clean_cell_def

section \<open>The pairing rule\<close>

lemma digit_not_colon: "is_digit c \<Longrightarrow> c \<noteq> CHR '':''"
  by (auto simp: is_digit_def)

lemma digit_char_iff:
  "is_digit a \<Longrightarrow> a = CHR ''2'' \<longleftrightarrow> digit_val a = 2"
  "is_digit a \<Longrightarrow> a = CHR ''6'' \<longleftrightarrow> digit_val a = 6"
  using digit_eq[of a "CHR ''2''"] digit_eq[of a "CHR ''6''"]
  by (simp_all add: is_digit_def digit_val_def)

lemma field_colon_H:
  assumes "is_digit a" "is_digit b"
  shows "field_colon regex_H (a # b # CHR '':'' # rest) =
           (if two_digits a b < 24 then [(two_digits a b, rest)] else [])"
  using assms digit_val_less_10[OF assms(1)] digit_val_less_10[OF assms(2)]
  by (auto simp: field_colon_def digit_char_iff digit_not_colon two_digits_def)

lemma field_colon_M:
  assumes "is_digit a" "is_digit b"
  shows "field_colon regex_M (a # b # CHR '':'' # rest) =
           (if two_digits a b < 60 then [(two_digits a b, rest)] else [])"
  using assms digit_val_less_10[OF assms(1)] digit_val_less_10[OF assms(2)]
  by (auto simp: field_colon_def digit_not_colon two_digits_def)

lemma regex_S_end:
  assumes "is_digit a" "is_digit b"
  shows "regex_S [a, b] =
           (if two_digits a b < 62 then [(two_digits a b, [])] else []) @ [(digit_val a, [b])]"
  using assms digit_val_less_10[OF assms(1)] digit_val_less_10[OF assms(2)]
  by (auto simp: digit_char_iff two_digits_def)

text \<open>
  On a string of the shape \<^verbatim>\<open>dd:dd:dd\<close>, the only strings that the time filter lets
  through, the parser returns exactly when the hour is below 24, the minute below 60 and
  the second at most 61, and its timestamp is then the elapsed seconds of the string.
\<close>

lemma to_datetime_shape:
  assumes "hms s = Some (h, m, x)"
  shows "to_datetime (Some s) =
     (if h < 24 \<and> m < 60 \<and> x < 62 then Inr (Some (int (h * 3600 + m * 60 + x))) else Inl ValueError)"
proof -
  from assms obtain h1 h2 m1 m2 s1 s2 where
    s: "s = [h1, h2, CHR '':'', m1, m2, CHR '':'', s1, s2]"
    and d: "is_digit h1" "is_digit h2" "is_digit m1" "is_digit m2" "is_digit s1" "is_digit s2"
    and v: "h = two_digits h1 h2" "m = two_digits m1 m2" "x = two_digits s1 s2"
    by (rule hms_SomeD)
  have n: "s \<notin> set nat_strings" "length s \<noteq> 0"
    unfolding s nat_strings_def by simp_all
  have f: "format_regex_match s =
      (if h < 24 \<and> m < 60 then Some ((h, m, if x < 62 then x else digit_val s1), if x < 62 then [] else [s2])
       else None)"
    unfolding format_regex_match_def s field_colon_H[OF d(1,2)] v
    by (simp add: field_colon_M[OF d(3,4)] regex_S_end[OF d(5,6)] del: regex_S.simps)
  show ?thesis
    unfolding to_datetime_def using n by (simp add: f)
qed

lemma wall_clock_parses: "wall_clock s \<Longrightarrow> parses (Some s)"
  by (auto simp: wall_clock_def parses_def to_datetime_shape split: option.splits)

lemma wall_clock_stamp: "wall_clock s \<Longrightarrow> stamp (Some s) = Some (int (clock_seconds s))"
  by (auto simp: wall_clock_def stamp_def to_datetime_shape clock_seconds_def split: option.splits)

lemma shape_parses_iff: "hms s \<noteq> None \<Longrightarrow> parses (Some s) \<longleftrightarrow> wall_clock s"
  by (auto simp: wall_clock_def parses_def to_datetime_shape split: option.splits)

lemma to_datetime_None: "to_datetime None = Inr None"
  by (simp add: to_datetime_def)

lemma clean_cell_parses: "clean_cell cell \<Longrightarrow> parses cell"
  by (cases cell) (simp_all add: clean_cell_def wall_clock_parses, simp add: parses_def to_datetime_None)

lemma qualifies_spec:
  assumes "clean_cell (arrival_time i)" and "clean_cell (departure_time b)"
  shows "qualifies m i b = spec_qualifies m i b"
proof (cases "arrival_time i")
  case None
  then show ?thesis
    by (simp add: qualifies_def spec_qualifies_def stamp_def to_datetime_None diff_minutes_def
        in_transfer_window_def split: option.splits)
next
  case a: (Some a)
  show ?thesis
  proof (cases "departure_time b")
    case None
    then show ?thesis
      by (simp add: qualifies_def spec_qualifies_def stamp_def to_datetime_None diff_minutes_def
          in_transfer_window_def a)
  next
    case d: (Some d)
    from assms a d have "wall_clock a" "wall_clock d"
      by (simp_all add: clean_cell_def)
    then show ?thesis
      by (simp add: qualifies_def spec_qualifies_def a d wall_clock_stamp diff_minutes_def
          in_transfer_window_def delta_minutes_def)
  qed
qed

lemma concat_map_if:
  "concat (map (\<lambda>b. if P b then [f b] else []) bs) = map f (filter P bs)"
  by (induction bs) simp_all

lemma concat_pairs_empty:
  "xs = [] \<or> ys = [] \<Longrightarrow> concat (map (\<lambda>i. map f (filter (P i) ys)) xs) = []"
  by auto

lemma row_transfers_spec:
  assumes "list_all (\<lambda>i. clean_cell (arrival_time i)) ion_times"
    and "list_all (\<lambda>b. clean_cell (departure_time b)) bus_times"
  shows "row_transfers ion_times bus_times m row =
     [\<lparr>ion_stop_id = stop_id_right row, bus_route_id = route_id b\<rparr>.
        i \<leftarrow> filter (\<lambda>r. st_stop_id r = stop_id_right row) ion_times,
        b \<leftarrow> filter (\<lambda>r. st_stop_id r = stop_id_left row) bus_times,
        spec_qualifies m i b]"
proof -
  let ?arr = "filter (\<lambda>r. st_stop_id r = stop_id_right row) ion_times"
  let ?dep = "filter (\<lambda>r. st_stop_id r = stop_id_left row) bus_times"
  have q: "filter (qualifies m i) ?dep = filter (spec_qualifies m i) ?dep" if "i \<in> set ?arr" for i
    using that assms by (intro filter_cong) (auto simp: list_all_iff qualifies_spec)
  have p: "pair_transfers (stop_id_right row) m ?arr ?dep =
      concat (map (\<lambda>i. map (\<lambda>b. \<lparr>ion_stop_id = stop_id_right row, bus_route_id = route_id b\<rparr>)
                            (filter (spec_qualifies m i) ?dep)) ?arr)"
    unfolding pair_transfers_def
    by (rule arg_cong[where f = concat], rule map_cong[OF refl]) (simp only: q)
  have e: "?arr = [] \<or> ?dep = [] \<Longrightarrow>
      concat (map (\<lambda>i. map (\<lambda>b. \<lparr>ion_stop_id = stop_id_right row, bus_route_id = route_id b\<rparr>)
                            (filter (spec_qualifies m i) ?dep)) ?arr) = []"
    by (rule concat_pairs_empty)
  have "row_transfers ion_times bus_times m row =
      concat (map (\<lambda>i. map (\<lambda>b. \<lparr>ion_stop_id = stop_id_right row, bus_route_id = route_id b\<rparr>)
                            (filter (spec_qualifies m i) ?dep)) ?arr)"
  proof (cases "?arr = [] \<or> ?dep = []")
    case True
    then have "row_transfers ion_times bus_times m row = []"
      unfolding row_transfers_def Let_def by (simp only: if_True)
    with e[OF True] show ?thesis by (simp only:)
  next
    case False
    then have "row_transfers ion_times bus_times m row = pair_transfers (stop_id_right row) m ?arr ?dep"
      unfolding row_transfers_def Let_def by (simp only: if_False)
    with p show ?thesis by (simp only:)
  qed
  then show ?thesis
    by (simp only: concat_map_if)
qed

lemma row_ok_clean:
  assumes "list_all (\<lambda>i. clean_cell (arrival_time i)) ion_times"
    and "list_all (\<lambda>b. clean_cell (departure_time b)) bus_times"
  shows "row_ok ion_times bus_times row"
  using assms unfolding row_ok_iff by (auto simp: list_all_iff clean_cell_parses)

text \<open>
  The pairing rule on times of day. When every time cell of the two event lists is
  missing or a clock string that \<^verbatim>\<open>%H:%M:%S\<close> reads (hour below 24), the pairing loops
  return, and the list \<^verbatim>\<open>transfers\<close> holds one record for each joined row, each arrival
  at its rail stop and each departure at its bus stop exactly when both times are present
  and \<open>0 \<le> delta_minutes \<le> max_transfer_minutes\<close>, both ends included; no other record
  is appended. With a threshold of zero a pair qualifies exactly when its wait is zero.
\<close>

lemma pairing_rule_on_times_of_day:
  assumes "list_all (\<lambda>i. clean_cell (arrival_time i)) ion_times"
    and "list_all (\<lambda>b. clean_cell (departure_time b)) bus_times"
  shows "nearby_loop ion_times bus_times max_transfer_m nearby [] =
     Inr [\<lparr>ion_stop_id = stop_id_right row, bus_route_id = route_id b\<rparr>.
            row \<leftarrow> nearby,
            i \<leftarrow> filter (\<lambda>r. st_stop_id r = stop_id_right row) ion_times,
            b \<leftarrow> filter (\<lambda>r. st_stop_id r = stop_id_left row) bus_times,
            spec_qualifies max_transfer_m i b]
     \<and> (spec_qualifies 0 i_row b_row \<longleftrightarrow>
          (case (arrival_time i_row, departure_time b_row) of
             (Some a, Some d) \<Rightarrow> delta_minutes a d = 0 | _ \<Rightarrow> False))"
proof
  have ok: "list_all (row_ok ion_times bus_times) nearby"
    using row_ok_clean[OF assms] by (simp add: list_all_iff)
  have "map (row_transfers ion_times bus_times max_transfer_m) nearby =
        map (\<lambda>row. [\<lparr>ion_stop_id = stop_id_right row, bus_route_id = route_id b\<rparr>.
              i \<leftarrow> filter (\<lambda>r. st_stop_id r = stop_id_right row) ion_times,
              b \<leftarrow> filter (\<lambda>r. st_stop_id r = stop_id_left row) bus_times,
              spec_qualifies max_transfer_m i b]) nearby"
    by (rule map_cong[OF refl]) (rule row_transfers_spec[OF assms])
  then have "concat (map (row_transfers ion_times bus_times max_transfer_m) nearby) =
     [\<lparr>ion_stop_id = stop_id_right row, bus_route_id = route_id b\<rparr>.
            row \<leftarrow> nearby,
            i \<leftarrow> filter (\<lambda>r. st_stop_id r = stop_id_right row) ion_times,
            b \<leftarrow> filter (\<lambda>r. st_stop_id r = stop_id_left row) bus_times,
            spec_qualifies max_transfer_m i b]"
    by (simp only:)
  with ok show "nearby_loop ion_times bus_times max_transfer_m nearby [] =
     Inr [\<lparr>ion_stop_id = stop_id_right row, bus_route_id = route_id b\<rparr>.
            row \<leftarrow> nearby,
            i \<leftarrow> filter (\<lambda>r. st_stop_id r = stop_id_right row) ion_times,
            b \<leftarrow> filter (\<lambda>r. st_stop_id r = stop_id_left row) bus_times,
            spec_qualifies max_transfer_m i b]"
    by (simp only: nearby_loop_eq if_True append_Nil)
next
  show "spec_qualifies 0 i_row b_row \<longleftrightarrow>
          (case (arrival_time i_row, departure_time b_row) of
             (Some a, Some d) \<Rightarrow> delta_minutes a d = 0 | _ \<Rightarrow> False)"
    by (auto simp: spec_qualifies_def split: option.splits)
qed


lemma pairing_rule_on_times_of_day_example:
  "list_all (\<lambda>i. clean_cell (arrival_time i)) [sample_row ''R1'' ''301'' ''07:00:00'']
   \<and> list_all (\<lambda>b. clean_cell (departure_time b))
        [sample_row ''B1'' ''X'' ''07:00:00'', sample_row ''B1'' ''Y'' ''07:06:00'',
         sample_row ''B1'' ''Z'' ''07:06:01'']
   \<and> nearby_loop [sample_row ''R1'' ''301'' ''07:00:00'']
        [sample_row ''B1'' ''X'' ''07:00:00'', sample_row ''B1'' ''Y'' ''07:06:00'',
         sample_row ''B1'' ''Z'' ''07:06:01'']
        6 [\<lparr>stop_id_left = ''B1'', stop_id_right = ''R1''\<rparr>] []
      = Inr [\<lparr>ion_stop_id = ''R1'', bus_route_id = ''X''\<rparr>, \<lparr>ion_stop_id = ''R1'', bus_route_id = ''Y''\<rparr>]"
proof -
  have h1: "list_all (\<lambda>i. clean_cell (arrival_time i)) [sample_row ''R1'' ''301'' ''07:00:00'']"
    by (simp add: sample_defs clock_defs)
  have h2: "list_all (\<lambda>b. clean_cell (departure_time b))
        [sample_row ''B1'' ''X'' ''07:00:00'', sample_row ''B1'' ''Y'' ''07:06:00'',
         sample_row ''B1'' ''Z'' ''07:06:01'']"
    by (simp add: sample_defs clock_defs)
  have "nearby_loop [sample_row ''R1'' ''301'' ''07:00:00'']
        [sample_row ''B1'' ''X'' ''07:00:00'', sample_row ''B1'' ''Y'' ''07:06:00'',
         sample_row ''B1'' ''Z'' ''07:06:01'']
        6 [\<lparr>stop_id_left = ''B1'', stop_id_right = ''R1''\<rparr>] []
      = Inr [\<lparr>ion_stop_id = ''R1'', bus_route_id = ''X''\<rparr>, \<lparr>ion_stop_id = ''R1'', bus_route_id = ''Y''\<rparr>]"
    using pairing_rule_on_times_of_day[OF h1 h2, of 6 "[\<lparr>stop_id_left = ''B1'', stop_id_right = ''R1''\<rparr>]", THEN conjunct1]
    by (simp add: sample_defs clock_defs spec_qualifies_def)
  with h1 h2 show ?thesis by (simp only: simp_thms)
qed

section \<open>Post-midnight times\<close>

text \<open>
  Claim C4, evaluated across midnight. The rail stop has an arrival at 23:59:00 and the
  bus stop 50 metres away a departure at 24:01:00; both strings pass the time filter of
  the window 23:00:00 to 25:00:00. The wait is 2 minutes, inside the closed window of 6
  minutes, so the rule asks for a transfer record. The loops append none: the departure
  string does not parse with \<^verbatim>\<open>%H:%M:%S\<close> and the run of \<^verbatim>\<open>ion_bus_connect.py\<close> ends with
  \<^verbatim>\<open>ValueError\<close>.
\<close>

theorem C4_pair_across_midnight_raises:
  "time_mask (Some ''23:59:00'') ''23:00:00'' ''25:00:00''
   \<and> time_mask (Some ''24:01:00'') ''23:00:00'' ''25:00:00''
   \<and> delta_minutes ''23:59:00'' ''24:01:00'' = 2
   \<and> spec_qualifies 6 (sample_row ''R1'' ''301'' ''23:59:00'') (sample_row ''B1'' ''X'' ''24:01:00'')
   \<and> nearby_loop [sample_row ''R1'' ''301'' ''23:59:00''] [sample_row ''B1'' ''X'' ''24:01:00''] 6
        [\<lparr>stop_id_left = ''B1'', stop_id_right = ''R1''\<rparr>] [] = Inl ValueError
   \<and> ion_bus_connect_main planar_within [''S1''] [''301''] [''X''] [R1] [B1]
        [sample_row ''R1'' ''301'' ''23:59:00'', sample_row ''B1'' ''X'' ''24:01:00'']
        ''23:00:00'' ''25:00:00'' 100 6 = Inl ValueError"
proof -
  have a: "time_mask (Some ''23:59:00'') ''23:00:00'' ''25:00:00''
     \<and> time_mask (Some ''24:01:00'') ''23:00:00'' ''25:00:00''"
    by (simp add: run_defs)
  have b: "delta_minutes ''23:59:00'' ''24:01:00'' = 2"
    by (simp add: clock_defs)
  have c: "spec_qualifies 6 (sample_row ''R1'' ''301'' ''23:59:00'') (sample_row ''B1'' ''X'' ''24:01:00'')"
    by (simp add: spec_qualifies_def sample_row_def b)
  have d: "nearby_loop [sample_row ''R1'' ''301'' ''23:59:00''] [sample_row ''B1'' ''X'' ''24:01:00''] 6
        [\<lparr>stop_id_left = ''B1'', stop_id_right = ''R1''\<rparr>] [] = Inl ValueError"
    by (simp add: run_defs sample_defs)
  have e: "ion_bus_connect_main planar_within [''S1''] [''301''] [''X''] [R1] [B1]
        [sample_row ''R1'' ''301'' ''23:59:00'', sample_row ''B1'' ''X'' ''24:01:00'']
        ''23:00:00'' ''25:00:00'' 100 6 = Inl ValueError"
    by (simp add: run_defs sample_defs)
  from a b c d e show ?thesis by (simp only: simp_thms)
qed

text \<open>
  Claim C1, evaluated on a post-midnight departure. \<^verbatim>\<open>ion_bus_connect.py\<close> is run with the
  window 07:00:00 to 26:00:00, a walking distance of 100 and a transfer time of 1200
  minutes; the rail stop has an arrival at 07:00:00 and the bus stop 50 metres away a
  departure at 25:30:00. The two events are 1110 minutes apart in elapsed time, but the
  departure string does not parse with \<^verbatim>\<open>%H:%M:%S\<close> and the run ends with \<^verbatim>\<open>ValueError\<close>: no
  wait is computed.
\<close>

theorem C1_post_midnight_departure_raises:
  "delta_minutes ''07:00:00'' ''25:30:00'' = 1110
   \<and> time_mask (Some ''25:30:00'') ''07:00:00'' ''26:00:00''
   \<and> to_datetime (Some ''25:30:00'') = Inl ValueError
   \<and> ion_bus_connect_main planar_within [''S1''] [''301''] [''X''] [R1] [B1]
        [sample_row ''R1'' ''301'' ''07:00:00'', sample_row ''B1'' ''X'' ''25:30:00'']
        ''07:00:00'' ''26:00:00'' 100 1200 = Inl ValueError"
proof -
  have a: "delta_minutes ''07:00:00'' ''25:30:00'' = 1110"
    by (simp add: clock_defs)
  have b: "time_mask (Some ''25:30:00'') ''07:00:00'' ''26:00:00''"
    by (simp add: run_defs)
  have c: "to_datetime (Some ''25:30:00'') = Inl ValueError"
    by (simp add: run_defs)
  have d: "ion_bus_connect_main planar_within [''S1''] [''301''] [''X''] [R1] [B1]
        [sample_row ''R1'' ''301'' ''07:00:00'', sample_row ''B1'' ''X'' ''25:30:00'']
        ''07:00:00'' ''26:00:00'' 100 1200 = Inl ValueError"
    by (simp add: run_defs sample_defs)
  from a b c d show ?thesis by (simp only: simp_thms)
qed

section \<open>The time-window filter on clock strings\<close>

lemma clock_fields_ok_match: "clock_fields_ok s \<Longrightarrow> str_match_time s"
  by (auto simp: clock_fields_ok_def str_match_time_def split: option.splits)

text \<open>
  Claim C10 as stated fails: the shape \<^verbatim>\<open>dd:dd:dd\<close> admits minute and second fields up to
  99, and there the lexicographic order is not the order of elapsed seconds. The strings
  07:99:00 and 08:00:00 both have the shape, the first is lexicographically smaller, yet
  it denotes 31140 seconds against 28800; the filter admits it into the window 07:00:00
  to 08:00:00.
\<close>

theorem C10_lexicographic_order_counterexample:
  "hms ''07:99:00'' \<noteq> None \<and> hms ''08:00:00'' \<noteq> None
   \<and> (''07:99:00'' :: string) \<le> ''08:00:00''
   \<and> \<not> clock_seconds ''07:99:00'' \<le> clock_seconds ''08:00:00''
   \<and> time_mask (Some ''07:99:00'') ''07:00:00'' ''08:00:00''"
  by (simp add: clock_defs time_mask_def str_match_time_def)

text \<open>
  Claim C10, amended. For clock strings of the shape \<^verbatim>\<open>dd:dd:dd\<close> whose minute and second
  fields are below 60 (any hour field from 00 to 99), lexicographic order is the order of
  elapsed seconds; so with such window bounds the filter admits such an event exactly when
  its elapsed time lies in the closed window. A missing cell is excluded, and so is every
  string that the pattern does not match; neither raises.
\<close>

theorem C10_time_mask_window:
  assumes "clock_fields_ok window_start" and "clock_fields_ok window_end"
  shows "(clock_fields_ok s \<and> clock_fields_ok t \<longrightarrow> (s \<le> t \<longleftrightarrow> clock_seconds s \<le> clock_seconds t))
     \<and> (clock_fields_ok s \<longrightarrow>
          (time_mask (Some s) window_start window_end \<longleftrightarrow>
             clock_seconds window_start \<le> clock_seconds s \<and> clock_seconds s \<le> clock_seconds window_end))
     \<and> \<not> time_mask None window_start window_end
     \<and> (\<not> str_match_time u \<longrightarrow> \<not> time_mask (Some u) window_start window_end)"
proof (intro conjI impI)
  assume "clock_fields_ok s \<and> clock_fields_ok t"
  then show "s \<le> t \<longleftrightarrow> clock_seconds s \<le> clock_seconds t"
    by (simp add: clock_le_seconds)
next
  assume s: "clock_fields_ok s"
  show "time_mask (Some s) window_start window_end \<longleftrightarrow>
          clock_seconds window_start \<le> clock_seconds s \<and> clock_seconds s \<le> clock_seconds window_end"
    by (simp add: time_mask_def clock_fields_ok_match[OF s] clock_le_seconds[OF assms(1) s]
        clock_le_seconds[OF s assms(2)])
next
  show "\<not> time_mask None window_start window_end"
    by (simp add: time_mask_def)
next
  assume "\<not> str_match_time u"
  then show "\<not> time_mask (Some u) window_start window_end"
    by (simp add: time_mask_def)
qed

theorem C10_time_mask_window_witness:
  "clock_fields_ok ''07:00:00'' \<and> clock_fields_ok ''26:00:00'' \<and> clock_fields_ok ''25:30:00''
   \<and> time_mask (Some ''25:30:00'') ''07:00:00'' ''26:00:00''
   \<and> clock_seconds ''07:00:00'' \<le> clock_seconds ''25:30:00''
   \<and> clock_seconds ''25:30:00'' \<le> clock_seconds ''26:00:00''
   \<and> \<not> str_match_time ''7:15''
   \<and> \<not> time_mask (Some ''7:15'') ''07:00:00'' ''26:00:00''"
proof -
  have h1: "clock_fields_ok ''07:00:00''" by (simp add: clock_defs)
  have h2: "clock_fields_ok ''26:00:00''" by (simp add: clock_defs)
  have h3: "clock_fields_ok ''25:30:00''" by (simp add: clock_defs)
  have h4: "\<not> str_match_time ''7:15''" by (simp add: str_match_time_def)
  have w: "clock_seconds ''07:00:00'' \<le> clock_seconds ''25:30:00''
     \<and> clock_seconds ''25:30:00'' \<le> clock_seconds ''26:00:00''"
    by (simp add: clock_defs)
  note c = C10_time_mask_window[OF h1 h2, of "''25:30:00''" "''25:30:00''" "''7:15''"]
  from c h3 w have m: "time_mask (Some ''25:30:00'') ''07:00:00'' ''26:00:00''"
    by blast
  from c h4 have n: "\<not> time_mask (Some ''7:15'') ''07:00:00'' ''26:00:00''"
    by blast
  from h1 h2 h3 h4 w m n show ?thesis by (simp only: simp_thms)
qed


section \<open>The transfer index: keys and counts\<close>

lemma distinct_route_count_list:
  "distinct_route_count ts k = length (remdups (map bus_route_id (filter (\<lambda>t. ion_stop_id t = k) ts)))"
proof -
  have "set (map bus_route_id (filter (\<lambda>t. ion_stop_id t = k) ts))
          = bus_route_id ` {t \<in> set ts. ion_stop_id t = k}"
    by auto
  then show ?thesis
    unfolding distinct_route_count_def length_remdups_card_conv by simp
qed

lemma nearby_loop_InrD:
  assumes "nearby_loop ion_times bus_times m nearby [] = Inr transfers"
  shows "list_all (row_ok ion_times bus_times) nearby"
    and "transfers = all_transfers ion_times bus_times m nearby"
  using assms by (simp_all add: nearby_loop_eq all_transfers_def split: if_splits)

lemma nearby_loop_InrI:
  "list_all (row_ok ion_times bus_times) nearby \<Longrightarrow>
     nearby_loop ion_times bus_times m nearby [] = Inr (all_transfers ion_times bus_times m nearby)"
  by (simp add: nearby_loop_eq all_transfers_def)

lemma calculate_transfers_for_distance_InrD:
  assumes "calculate_transfers_for_distance w m ion_stops bus_stops ion_times bus_times r = Inr d"
  shows "list_all (row_ok ion_times bus_times) (sjoin_within w bus_stops ion_stops r)"
    and "d = (\<lambda>k. if k \<in> stop_id ` set ion_stops
               then Some (distinct_route_count
                      (all_transfers ion_times bus_times m (sjoin_within w bus_stops ion_stops r)) k)
               else None)"
  using assms by (simp_all add: calculate_transfers_for_distance_eq split: if_splits)

lemma transfer_index_InrD:
  assumes "transfer_index w ir br ion_stops bus_stops st ws we r m = Inr out"
  shows "list_all (row_ok (filter_ion_times ir ws we st) (filter_bus_times br ws we st))
           (sjoin_within w bus_stops ion_stops r)"
    and "out = map (\<lambda>s. (s, distinct_route_count
                   (all_transfers (filter_ion_times ir ws we st) (filter_bus_times br ws we st) m
                      (sjoin_within w bus_stops ion_stops r)) (stop_id s))) ion_stops"
  using assms by (simp_all add: transfer_index_eq Let_def split: if_splits)

lemma row_ok_no_events:
  "ion_times = [] \<or> bus_times = [] \<Longrightarrow> row_ok ion_times bus_times row"
  by (auto simp: row_ok_def)

lemma all_transfers_no_events:
  "ion_times = [] \<or> bus_times = [] \<or> nearby = [] \<Longrightarrow> all_transfers ion_times bus_times m nearby = []"
  by (auto simp: all_transfers_def row_transfers_def)

lemma distinct_route_count_Nil: "distinct_route_count [] k = 0"
  by (simp add: distinct_route_count_def)

text \<open>
  Claim C2. Let the rail stops passed in have pairwise different ids, as the stop table of
  a feed has. Whenever the computation returns, the keys of the mapping returned by
  \<^verbatim>\<open>calculate_transfers_for_distance\<close> are exactly the ids of the rail stops passed in, and
  the table of the batch scripts has exactly one row per rail stop passed in, in the same
  order; a rail stop without any transfer record has count 0. With an empty arrival list,
  an empty departure list or no joined stop pair the computation does return, with count 0
  everywhere.
\<close>

theorem C2_index_keys_are_rail_stops:
  assumes "distinct (map stop_id ion_stops)"
  shows "(calculate_transfers_for_distance w m ion_stops bus_stops ion_times bus_times r = Inr d \<longrightarrow>
      dom d = stop_id ` set ion_stops \<and>
      (\<forall>transfers. nearby_loop ion_times bus_times m (sjoin_within w bus_stops ion_stops r) [] = Inr transfers \<longrightarrow>
         (\<forall>s \<in> set ion_stops. stop_id s \<notin> ion_stop_id ` set transfers \<longrightarrow> d (stop_id s) = Some 0)))
   \<and> (transfer_index w ion_routes bus_routes ion_stops bus_stops st_with_routes ws we r m = Inr out \<longrightarrow>
      map fst out = ion_stops \<and>
      (\<forall>transfers. nearby_loop (filter_ion_times ion_routes ws we st_with_routes)
                      (filter_bus_times bus_routes ws we st_with_routes) m
                      (sjoin_within w bus_stops ion_stops r) [] = Inr transfers \<longrightarrow>
         (\<forall>row \<in> set out. stop_id (fst row) \<notin> ion_stop_id ` set transfers \<longrightarrow> snd row = 0)))
   \<and> (ion_times = [] \<or> bus_times = [] \<or> sjoin_within w bus_stops ion_stops r = [] \<longrightarrow>
      calculate_transfers_for_distance w m ion_stops bus_stops ion_times bus_times r
        = Inr (\<lambda>k. if k \<in> stop_id ` set ion_stops then Some 0 else None))
   \<and> (st_with_routes = [] \<or> sjoin_within w bus_stops ion_stops r = [] \<longrightarrow>
      transfer_index w ion_routes bus_routes ion_stops bus_stops st_with_routes ws we r m
        = Inr (map (\<lambda>s. (s, 0)) ion_stops))"
proof (intro conjI impI allI ballI)
  assume a: "calculate_transfers_for_distance w m ion_stops bus_stops ion_times bus_times r = Inr d"
  show "dom d = stop_id ` set ion_stops"
    unfolding calculate_transfers_for_distance_InrD(2)[OF a] by (auto split: if_splits)
next
  fix transfers s
  assume a: "calculate_transfers_for_distance w m ion_stops bus_stops ion_times bus_times r = Inr d"
    and l: "nearby_loop ion_times bus_times m (sjoin_within w bus_stops ion_stops r) [] = Inr transfers"
    and s: "s \<in> set ion_stops" and n: "stop_id s \<notin> ion_stop_id ` set transfers"
  have "d (stop_id s) = Some (distinct_route_count transfers (stop_id s))"
    unfolding calculate_transfers_for_distance_InrD(2)[OF a] nearby_loop_InrD(2)[OF l] using s by simp
  with n show "d (stop_id s) = Some 0"
    by (simp add: distinct_route_count_absent)
next
  assume a: "transfer_index w ion_routes bus_routes ion_stops bus_stops st_with_routes ws we r m = Inr out"
  show "map fst out = ion_stops"
    unfolding transfer_index_InrD(2)[OF a] by (simp add: comp_def)
next
  fix transfers row
  assume a: "transfer_index w ion_routes bus_routes ion_stops bus_stops st_with_routes ws we r m = Inr out"
    and l: "nearby_loop (filter_ion_times ion_routes ws we st_with_routes)
              (filter_bus_times bus_routes ws we st_with_routes) m
              (sjoin_within w bus_stops ion_stops r) [] = Inr transfers"
    and row: "row \<in> set out" and n: "stop_id (fst row) \<notin> ion_stop_id ` set transfers"
  from row have "snd row = distinct_route_count transfers (stop_id (fst row))"
    unfolding transfer_index_InrD(2)[OF a] nearby_loop_InrD(2)[OF l] by auto
  with n show "snd row = 0"
    by (simp add: distinct_route_count_absent)
next
  assume e: "ion_times = [] \<or> bus_times = [] \<or> sjoin_within w bus_stops ion_stops r = []"
  have ok: "list_all (row_ok ion_times bus_times) (sjoin_within w bus_stops ion_stops r)"
    using e row_ok_no_events[of ion_times bus_times] by (auto simp: list_all_iff)
  show "calculate_transfers_for_distance w m ion_stops bus_stops ion_times bus_times r
        = Inr (\<lambda>k. if k \<in> stop_id ` set ion_stops then Some 0 else None)"
    unfolding calculate_transfers_for_distance_eq all_transfers_no_events[OF e] distinct_route_count_Nil
    using ok by simp
next
  assume e: "st_with_routes = [] \<or> sjoin_within w bus_stops ion_stops r = []"
  let ?it = "filter_ion_times ion_routes ws we st_with_routes"
  let ?bt = "filter_bus_times bus_routes ws we st_with_routes"
  from e have e': "?it = [] \<or> ?bt = [] \<or> sjoin_within w bus_stops ion_stops r = []"
    by (auto simp: filter_ion_times_def)
  have ok: "list_all (row_ok ?it ?bt) (sjoin_within w bus_stops ion_stops r)"
    using e' row_ok_no_events[of ?it ?bt] by (auto simp: list_all_iff)
  show "transfer_index w ion_routes bus_routes ion_stops bus_stops st_with_routes ws we r m
        = Inr (map (\<lambda>s. (s, 0)) ion_stops)"
    unfolding transfer_index_eq Let_def all_transfers_no_events[OF e'] distinct_route_count_Nil
    using ok by simp
qed


theorem C2_index_keys_are_rail_stops_witness:
  "calculate_transfers_for_distance planar_within 6 [R1, R2] [B1]
       [sample_row ''R1'' ''301'' ''07:00:00'', sample_row ''R2'' ''301'' ''07:02:00'']
       [sample_row ''B1'' ''X'' ''07:03:00''] 100
     = Inr [''R1'' \<mapsto> 1, ''R2'' \<mapsto> 0]
   \<and> dom [''R1'' \<mapsto> 1::nat, ''R2'' \<mapsto> 0] = stop_id ` set [R1, R2]
   \<and> transfer_index planar_within [''301''] [''X''] [R1, R2] [B1]
       [sample_row ''R1'' ''301'' ''07:00:00'', sample_row ''R2'' ''301'' ''07:02:00'',
        sample_row ''B1'' ''X'' ''07:03:00'']
       ''07:00:00'' ''09:00:00'' 100 6
     = Inr [(R1, 1), (R2, 0)]
   \<and> map fst [(R1, 1::nat), (R2, 0)] = [R1, R2]"
proof -
  have h0: "distinct (map stop_id [R1, R2])"
    by (simp add: sample_defs)
  have h1: "calculate_transfers_for_distance planar_within 6 [R1, R2] [B1]
       [sample_row ''R1'' ''301'' ''07:00:00'', sample_row ''R2'' ''301'' ''07:02:00'']
       [sample_row ''B1'' ''X'' ''07:03:00''] 100
     = Inr [''R1'' \<mapsto> 1, ''R2'' \<mapsto> 0]"
    by (simp add: run_defs sample_defs)
  have h2: "transfer_index planar_within [''301''] [''X''] [R1, R2] [B1]
       [sample_row ''R1'' ''301'' ''07:00:00'', sample_row ''R2'' ''301'' ''07:02:00'',
        sample_row ''B1'' ''X'' ''07:03:00'']
       ''07:00:00'' ''09:00:00'' 100 6
     = Inr [(R1, 1), (R2, 0)]"
    by (simp add: run_defs sample_defs)
  note c = C2_index_keys_are_rail_stops[OF h0, of planar_within 6 "[B1]"
      "[sample_row ''R1'' ''301'' ''07:00:00'', sample_row ''R2'' ''301'' ''07:02:00'']"
      "[sample_row ''B1'' ''X'' ''07:03:00'']" 100 "[''R1'' \<mapsto> 1, ''R2'' \<mapsto> 0]"
      "[''301'']" "[''X'']"
      "[sample_row ''R1'' ''301'' ''07:00:00'', sample_row ''R2'' ''301'' ''07:02:00'',
        sample_row ''B1'' ''X'' ''07:03:00'']"
      "''07:00:00''" "''09:00:00''" "[(R1, 1), (R2, 0)]"]
  from c h1 have k1: "dom [''R1'' \<mapsto> 1::nat, ''R2'' \<mapsto> 0] = stop_id ` set [R1, R2]"
    by blast
  from c h2 have k2: "map fst [(R1, 1::nat), (R2, 0)] = [R1, R2]"
    by blast
  from h1 h2 k1 k2 show ?thesis by (simp only: simp_thms)
qed

text \<open>
  Claim C3. Let the rail stops passed in have pairwise different ids, as the stop table of
  a feed has. When the pairing loops return the list \<open>transfers\<close>, the count that
  \<^verbatim>\<open>calculate_transfers_for_distance\<close> reports for a rail stop, and the count in its row of
  the batch scripts' table, is the number of distinct bus route ids among the records of
  that stop in \<open>transfers\<close>: a route counts once, however many records carry it.
\<close>

theorem C3_count_is_distinct_routes:
  assumes "distinct (map stop_id ion_stops)"
  shows "(nearby_loop ion_times bus_times m (sjoin_within w bus_stops ion_stops r) [] = Inr transfers \<longrightarrow>
      calculate_transfers_for_distance w m ion_stops bus_stops ion_times bus_times r
        = Inr (\<lambda>k. if k \<in> stop_id ` set ion_stops
                    then Some (card (bus_route_id ` {t \<in> set transfers. ion_stop_id t = k}))
                    else None))
   \<and> (nearby_loop (filter_ion_times ion_routes ws we st_with_routes)
          (filter_bus_times bus_routes ws we st_with_routes) m
          (sjoin_within w bus_stops ion_stops r) [] = Inr transfers' \<longrightarrow>
      transfer_index w ion_routes bus_routes ion_stops bus_stops st_with_routes ws we r m
        = Inr (map (\<lambda>s. (s, card (bus_route_id ` {t \<in> set transfers'. ion_stop_id t = stop_id s})))
                 ion_stops))"
proof (intro conjI impI)
  assume l: "nearby_loop ion_times bus_times m (sjoin_within w bus_stops ion_stops r) [] = Inr transfers"
  show "calculate_transfers_for_distance w m ion_stops bus_stops ion_times bus_times r
        = Inr (\<lambda>k. if k \<in> stop_id ` set ion_stops
                    then Some (card (bus_route_id ` {t \<in> set transfers. ion_stop_id t = k}))
                    else None)"
    unfolding calculate_transfers_for_distance_eq nearby_loop_InrD(2)[OF l] distinct_route_count_def
    using nearby_loop_InrD(1)[OF l] by simp
next
  assume l: "nearby_loop (filter_ion_times ion_routes ws we st_with_routes)
          (filter_bus_times bus_routes ws we st_with_routes) m
          (sjoin_within w bus_stops ion_stops r) [] = Inr transfers'"
  show "transfer_index w ion_routes bus_routes ion_stops bus_stops st_with_routes ws we r m
        = Inr (map (\<lambda>s. (s, card (bus_route_id ` {t \<in> set transfers'. ion_stop_id t = stop_id s})))
                 ion_stops)"
    unfolding transfer_index_eq Let_def nearby_loop_InrD(2)[OF l] distinct_route_count_def
    using nearby_loop_InrD(1)[OF l] by simp
qed

theorem C3_count_is_distinct_routes_witness:
  "nearby_loop [sample_row ''R1'' ''301'' ''07:00:00'']
       [sample_row ''B1'' ''X'' ''07:03:00'', sample_row ''B2'' ''X'' ''07:05:00'']
       6 (sjoin_within planar_within [B1, B2] [R1] 100) []
     = Inr [\<lparr>ion_stop_id = ''R1'', bus_route_id = ''X''\<rparr>, \<lparr>ion_stop_id = ''R1'', bus_route_id = ''X''\<rparr>]
   \<and> calculate_transfers_for_distance planar_within 6 [R1] [B1, B2]
       [sample_row ''R1'' ''301'' ''07:00:00'']
       [sample_row ''B1'' ''X'' ''07:03:00'', sample_row ''B2'' ''X'' ''07:05:00''] 100
     = Inr [''R1'' \<mapsto> 1]"
proof -
  have h: "nearby_loop [sample_row ''R1'' ''301'' ''07:00:00'']
       [sample_row ''B1'' ''X'' ''07:03:00'', sample_row ''B2'' ''X'' ''07:05:00'']
       6 (sjoin_within planar_within [B1, B2] [R1] 100) []
     = Inr [\<lparr>ion_stop_id = ''R1'', bus_route_id = ''X''\<rparr>, \<lparr>ion_stop_id = ''R1'', bus_route_id = ''X''\<rparr>]"
    by (simp add: run_defs sample_defs)
  have c: "card (bus_route_id ` {t \<in> set [\<lparr>ion_stop_id = ''R1'', bus_route_id = ''X''\<rparr>,
                \<lparr>ion_stop_id = ''R1'', bus_route_id = ''X''\<rparr>]. ion_stop_id t = k})
           = (if k = ''R1'' then 1 else 0)" for k
    using distinct_route_count_list[of "[\<lparr>ion_stop_id = ''R1'', bus_route_id = ''X''\<rparr>,
                \<lparr>ion_stop_id = ''R1'', bus_route_id = ''X''\<rparr>]" k]
    unfolding distinct_route_count_def by simp
  have h0: "distinct (map stop_id [R1])"
    by simp
  note t = C3_count_is_distinct_routes[OF h0, THEN conjunct1, rule_format, OF h, unfolded c]
  have "(\<lambda>k. if k \<in> stop_id ` set [R1] then Some (if k = ''R1'' then 1 else 0) else None)
          = [''R1'' \<mapsto> 1::nat]"
    by (simp add: R1_def fun_eq_iff)
  with t have "calculate_transfers_for_distance planar_within 6 [R1] [B1, B2]
       [sample_row ''R1'' ''301'' ''07:00:00'']
       [sample_row ''B1'' ''X'' ''07:03:00'', sample_row ''B2'' ''X'' ''07:05:00''] 100
     = Inr [''R1'' \<mapsto> 1]"
    by (simp only:)
  with h show ?thesis by (simp only: simp_thms)
qed


section \<open>Parameters and empty schedules\<close>



lemma sjoin_within_buffer_nonpositive:
  assumes "r \<le> 0"
  shows "sjoin_within buffer_within bus_stops ion_stops r = []"
proof -
  have "\<not> buffer_within p r q" for p q
    using buffer_within_radius_pos[of p r q] assms by auto
  then have "set (sjoin_within buffer_within bus_stops ion_stops r) = {}"
    unfolding set_sjoin_within by simp
  then show ?thesis by simp
qed







section \<open>The proximity matcher\<close>

text \<open>
  Claim C7 as stated fails: the buffer is a polygon inscribed in the disc, not the disc.
  The bus stop at (99.9, 4) lies strictly inside the disc of radius 100 around the rail
  stop at (0, 0), at distance 99.98, but beyond the polygon's edge; the join emits no pair.
\<close>

theorem C7_inside_disc_not_matched_counterexample:
  "geometry R1_xy = (0, 0) \<and> geometry B3_xy = (999 / 10, 4)
   \<and> (999 / 10 - 0)\<^sup>2 + (4 - 0)\<^sup>2 < (100 :: real)\<^sup>2
   \<and> sjoin_within buffer_within [B3_xy] [R1_xy] 100 = []"
proof -
  have a: "geometry R1_xy = (0, 0) \<and> geometry B3_xy = (999 / 10, 4)"
    by (simp add: sample_defs)
  have b: "(999 / 10 - 0)\<^sup>2 + (4 - 0)\<^sup>2 < (100 :: real)\<^sup>2"
    by (simp add: power2_eq_square)
  have c: "sjoin_within buffer_within [B3_xy] [R1_xy] 100 = []"
    by (simp add: sjoin_within_def sample_defs buffer_within_rim_sample)
  from a b c show ?thesis by (simp only: simp_thms)
qed

text \<open>
  Claim C7, amended. The join emits the pair of a rail stop and a bus stop exactly when
  the bus stop lies strictly inside the buffer polygon of the rail stop, the polygon with
  16 segments to the quarter circle inscribed in the disc of the given radius. Such a bus
  stop lies strictly inside the disc, so a bus stop at a distance of the radius or more
  does not match; a bus stop closer than \<open>radius * cos (pi / 64)\<close>, in particular one
  closer than 511/512 of the radius, does match; between the two it depends on the
  direction. With a radius of zero (or below) no pair is emitted at all.
\<close>

theorem C7_proximity_is_buffer_polygon:
  "(row \<in> set (sjoin_within buffer_within bus_stops ion_stops r) \<longleftrightarrow>
      (\<exists>b \<in> set bus_stops. \<exists>i \<in> set ion_stops.
         row = \<lparr>stop_id_left = stop_id b, stop_id_right = stop_id i\<rparr>
         \<and> buffer_within (geometry i) r (geometry b)))
   \<and> (buffer_within p r q \<longrightarrow> (fst q - fst p)\<^sup>2 + (snd q - snd p)\<^sup>2 < (real_of_int r)\<^sup>2)
   \<and> (sqrt ((fst q - fst p)\<^sup>2 + (snd q - snd p)\<^sup>2) < real_of_int r * cos (pi / 64) \<longrightarrow>
        buffer_within p r q)
   \<and> (0 < r \<and> 512 * sqrt ((fst q - fst p)\<^sup>2 + (snd q - snd p)\<^sup>2) < 511 * real_of_int r \<longrightarrow>
        buffer_within p r q)
   \<and> (r \<le> 0 \<longrightarrow> sjoin_within buffer_within bus_stops ion_stops r = [])"
proof (intro conjI impI)
  show "row \<in> set (sjoin_within buffer_within bus_stops ion_stops r) \<longleftrightarrow>
      (\<exists>b \<in> set bus_stops. \<exists>i \<in> set ion_stops.
         row = \<lparr>stop_id_left = stop_id b, stop_id_right = stop_id i\<rparr>
         \<and> buffer_within (geometry i) r (geometry b))"
    unfolding set_sjoin_within by blast
next
  assume "buffer_within p r q"
  then show "(fst q - fst p)\<^sup>2 + (snd q - snd p)\<^sup>2 < (real_of_int r)\<^sup>2"
    by (rule buffer_within_disc)
next
  assume "sqrt ((fst q - fst p)\<^sup>2 + (snd q - snd p)\<^sup>2) < real_of_int r * cos (pi / 64)"
  then show "buffer_within p r q"
    by (rule buffer_within_inner)
next
  assume "0 < r \<and> 512 * sqrt ((fst q - fst p)\<^sup>2 + (snd q - snd p)\<^sup>2) < 511 * real_of_int r"
  then show "buffer_within p r q"
    by (intro buffer_within_near) simp_all
next
  assume "r \<le> 0"
  then show "sjoin_within buffer_within bus_stops ion_stops r = []"
    by (rule sjoin_within_buffer_nonpositive)
qed

theorem C7_proximity_is_buffer_polygon_witness:
  "sjoin_within buffer_within [B1_xy] [R1_xy] 100 = [\<lparr>stop_id_left = ''B1'', stop_id_right = ''R1''\<rparr>]
   \<and> sjoin_within buffer_within [B1_xy] [R1_xy] 40 = []
   \<and> sjoin_within buffer_within [B1_xy] [R1_xy] 0 = []"
proof -
  note c = C7_proximity_is_buffer_polygon[of _ "[B1_xy]" "[R1_xy]" _ "(0, 0)" "(50, 0)"]
  have n: "0 < (100::int) \<and> 512 * sqrt ((fst (50::real, 0::real) - fst (0::real, 0::real))\<^sup>2
               + (snd (50::real, 0::real) - snd (0::real, 0::real))\<^sup>2) < 511 * real_of_int 100"
    by simp
  from c[of _ 100] n have w100: "buffer_within (0, 0) 100 (50, 0)"
    by blast
  have "\<not> (fst (50::real, 0::real) - fst (0::real, 0::real))\<^sup>2
            + (snd (50::real, 0::real) - snd (0::real, 0::real))\<^sup>2 < (real_of_int 40)\<^sup>2"
    by simp
  with c[of _ 40] have w40: "\<not> buffer_within (0, 0) 40 (50, 0)"
    by blast
  have z: "(0::int) \<le> 0" by simp
  from c[of _ 0] z have s0: "sjoin_within buffer_within [B1_xy] [R1_xy] 0 = []"
    by blast
  have s100: "sjoin_within buffer_within [B1_xy] [R1_xy] 100 = [\<lparr>stop_id_left = ''B1'', stop_id_right = ''R1''\<rparr>]"
    by (simp add: sjoin_within_def sample_defs w100)
  have s40: "sjoin_within buffer_within [B1_xy] [R1_xy] 40 = []"
    by (simp add: sjoin_within_def sample_defs w40)
  from s100 s40 s0 show ?thesis by (simp only: simp_thms)
qed


section \<open>Monotonicity and order independence\<close>

lemma list_all_row_ok_mono:
  assumes "set nearby \<subseteq> set nearby'" and "list_all (row_ok ion_times bus_times) nearby'"
  shows "list_all (row_ok ion_times bus_times) nearby"
  using assms by (auto simp: list_all_iff)

text \<open>
  Claim C8. With the library's containment test, let \<open>r1 \<le> r2\<close> and \<open>t1 \<le> t2\<close>, and let the
  rail stops have pairwise different ids. Then every joined stop pair at \<open>r1\<close> is a joined
  pair at \<open>r2\<close>; every transfer record produced with \<open>(r1, t1)\<close> is produced with
  \<open>(r2, t2)\<close>; and when the computation returns with \<open>(r2, t2)\<close> it returns with \<open>(r1, t1)\<close>,
  with the same keys and with no count larger than at \<open>(r2, t2)\<close>. Taking \<open>t1 = t2\<close> gives
  monotonicity in the radius, taking \<open>r1 = r2\<close> monotonicity in the threshold.
\<close>

theorem C8_monotone_in_radius_and_threshold:
  assumes "r1 \<le> r2" and "t1 \<le> t2"
    and "distinct (map stop_id ion_stops)"
    and "calculate_transfers_for_distance buffer_within t2 ion_stops bus_stops ion_times bus_times r2 = Inr d2"
  shows "set (sjoin_within buffer_within bus_stops ion_stops r1)
           \<subseteq> set (sjoin_within buffer_within bus_stops ion_stops r2)
     \<and> (\<forall>ts1 ts2.
          nearby_loop ion_times bus_times t1 (sjoin_within buffer_within bus_stops ion_stops r1) [] = Inr ts1 \<longrightarrow>
          nearby_loop ion_times bus_times t2 (sjoin_within buffer_within bus_stops ion_stops r2) [] = Inr ts2 \<longrightarrow>
          set ts1 \<subseteq> set ts2)
     \<and> (\<exists>d1. calculate_transfers_for_distance buffer_within t1 ion_stops bus_stops ion_times bus_times r1 = Inr d1
            \<and> dom d1 = dom d2
            \<and> (\<forall>s \<in> set ion_stops. \<exists>n1 n2. d1 (stop_id s) = Some n1 \<and> d2 (stop_id s) = Some n2 \<and> n1 \<le> n2))"
proof (intro conjI allI impI)
  let ?n1 = "sjoin_within buffer_within bus_stops ion_stops r1"
    and ?n2 = "sjoin_within buffer_within bus_stops ion_stops r2"
  show sub: "set ?n1 \<subseteq> set ?n2"
    by (rule set_sjoin_within_mono) (rule buffer_within_mono[OF assms(1)])
  have tsub: "set (all_transfers ion_times bus_times t1 ?n1) \<subseteq> set (all_transfers ion_times bus_times t2 ?n2)"
    by (rule all_transfers_mono[OF assms(2) sub])
  {
    fix ts1 ts2
    assume l1: "nearby_loop ion_times bus_times t1 ?n1 [] = Inr ts1"
      and l2: "nearby_loop ion_times bus_times t2 ?n2 [] = Inr ts2"
    show "set ts1 \<subseteq> set ts2"
      unfolding nearby_loop_InrD(2)[OF l1] nearby_loop_InrD(2)[OF l2] by (rule tsub)
  }
  note ok2 = calculate_transfers_for_distance_InrD(1)[OF assms(4)]
  note d2 = calculate_transfers_for_distance_InrD(2)[OF assms(4)]
  have ok1: "list_all (row_ok ion_times bus_times) ?n1"
    by (rule list_all_row_ok_mono[OF sub ok2])
  let ?d1 = "\<lambda>k. if k \<in> stop_id ` set ion_stops
                 then Some (distinct_route_count (all_transfers ion_times bus_times t1 ?n1) k) else None"
  have r1: "calculate_transfers_for_distance buffer_within t1 ion_stops bus_stops ion_times bus_times r1 = Inr ?d1"
    unfolding calculate_transfers_for_distance_eq using ok1 by simp
  have dom: "dom ?d1 = dom d2"
    unfolding d2 by (auto split: if_splits)
  have le: "\<forall>s \<in> set ion_stops. \<exists>n1 n2. ?d1 (stop_id s) = Some n1 \<and> d2 (stop_id s) = Some n2 \<and> n1 \<le> n2"
    unfolding d2 using distinct_route_count_mono[OF tsub] by simp
  from r1 dom le
  show "\<exists>d1. calculate_transfers_for_distance buffer_within t1 ion_stops bus_stops ion_times bus_times r1 = Inr d1
            \<and> dom d1 = dom d2
            \<and> (\<forall>s \<in> set ion_stops. \<exists>n1 n2. d1 (stop_id s) = Some n1 \<and> d2 (stop_id s) = Some n2 \<and> n1 \<le> n2)"
    by blast
qed

lemma buffer_within_sample_100: "buffer_within (0, 0) 100 (50, 0)"
  by (rule buffer_within_near) simp_all

lemma buffer_within_sample_40: "\<not> buffer_within (0, 0) 40 (50, 0)"
  using buffer_within_disc[of "(0, 0)" 40 "(50, 0)"] by auto

theorem C8_monotone_in_radius_and_threshold_witness:
  "calculate_transfers_for_distance buffer_within 6 [R1_xy] [B1_xy]
       [sample_row ''R1'' ''301'' ''07:00:00'']
       [sample_row ''B1'' ''X'' ''07:03:00'', sample_row ''B1'' ''X'' ''07:10:00''] 100
     = Inr [''R1'' \<mapsto> 1]
   \<and> calculate_transfers_for_distance buffer_within 0 [R1_xy] [B1_xy]
       [sample_row ''R1'' ''301'' ''07:00:00'']
       [sample_row ''B1'' ''X'' ''07:03:00'', sample_row ''B1'' ''X'' ''07:10:00''] 40
     = Inr [''R1'' \<mapsto> 0]
   \<and> set (sjoin_within buffer_within [B1_xy] [R1_xy] 40) \<subseteq> set (sjoin_within buffer_within [B1_xy] [R1_xy] 100)"
proof -
  have r: "(40::int) \<le> 100" by simp
  have t: "(0::int) \<le> 6" by simp
  have i: "distinct (map stop_id [R1_xy])" by simp
  have h: "calculate_transfers_for_distance buffer_within 6 [R1_xy] [B1_xy]
       [sample_row ''R1'' ''301'' ''07:00:00'']
       [sample_row ''B1'' ''X'' ''07:03:00'', sample_row ''B1'' ''X'' ''07:10:00''] 100
     = Inr [''R1'' \<mapsto> 1]"
    by (simp add: run_defs sample_defs buffer_within_sample_100)
  have l: "calculate_transfers_for_distance buffer_within 0 [R1_xy] [B1_xy]
       [sample_row ''R1'' ''301'' ''07:00:00'']
       [sample_row ''B1'' ''X'' ''07:03:00'', sample_row ''B1'' ''X'' ''07:10:00''] 40
     = Inr [''R1'' \<mapsto> 0]"
    by (simp add: run_defs sample_defs buffer_within_sample_40)
  from C8_monotone_in_radius_and_threshold[OF r t i h]
  have s: "set (sjoin_within buffer_within [B1_xy] [R1_xy] 40) \<subseteq> set (sjoin_within buffer_within [B1_xy] [R1_xy] 100)"
    by (rule conjunct1)
  from h l s show ?thesis by (simp only: simp_thms)
qed

lemma sorted_remdups_cong:
  fixes xs ys :: "'a::linorder list"
  assumes "set xs = set ys"
  shows "sort (remdups xs) = sort (remdups ys)"
  by (rule sorted_distinct_set_unique) (simp_all add: assms)

lemma groupby_nunique_cong_set:
  assumes "set ts = set ts'"
  shows "groupby_nunique ts = groupby_nunique ts'"
proof -
  have k: "sort (remdups (map ion_stop_id ts)) = sort (remdups (map ion_stop_id ts'))"
    by (rule sorted_remdups_cong) (simp add: assms)
  have c: "length (remdups (map bus_route_id (filter (\<lambda>t. ion_stop_id t = k) ts)))
         = length (remdups (map bus_route_id (filter (\<lambda>t. ion_stop_id t = k) ts')))" for k
    using distinct_route_count_cong_set[OF assms, of k] by (simp only: distinct_route_count_list)
  show ?thesis
    unfolding groupby_nunique_def k c ..
qed

lemma xfer_counts_of_cong_set:
  assumes "set ts = set ts'"
  shows "xfer_counts_of ts = xfer_counts_of ts'"
proof -
  from assms have "ts = [] \<longleftrightarrow> ts' = []"
    by (metis set_empty)
  then show ?thesis
    unfolding xfer_counts_of_def by (simp add: groupby_nunique_cong_set[OF assms])
qed

lemma set_sjoin_within_cong:
  "set bus_stops = set bus_stops' \<Longrightarrow> set ion_stops = set ion_stops' \<Longrightarrow>
     set (sjoin_within w bus_stops ion_stops r) = set (sjoin_within w bus_stops' ion_stops' r)"
  by (simp add: set_sjoin_within)

lemma list_all_row_ok_cong:
  assumes "set ion_times = set ion_times'" "set bus_times = set bus_times'" "set nearby = set nearby'"
  shows "list_all (row_ok ion_times bus_times) nearby = list_all (row_ok ion_times' bus_times') nearby'"
  unfolding list_all_iff assms(3) using row_ok_cong_set[OF assms(1,2)] by simp

lemma nearby_loop_cong_set:
  assumes "set ion_times = set ion_times'" "set bus_times = set bus_times'" "set nearby = set nearby'"
  shows "map_sum id xfer_counts_of (nearby_loop ion_times bus_times m nearby [])
       = map_sum id xfer_counts_of (nearby_loop ion_times' bus_times' m nearby' [])"
proof -
  have "xfer_counts_of (all_transfers ion_times bus_times m nearby)
      = xfer_counts_of (all_transfers ion_times' bus_times' m nearby')"
    by (rule xfer_counts_of_cong_set) (rule all_transfers_cong_set[OF assms])
  then show ?thesis
    unfolding nearby_loop_eq list_all_row_ok_cong[OF assms] all_transfers_def by simp
qed

text \<open>
  Claim C9. For rail stops with pairwise different ids, the result depends on the input
  collections only through their sets of rows. In particular it is the same for any two
  runs whose arrival list, departure list, stop lists or list of joined stop pairs are
  permutations of one another: the mapping of
  \<^verbatim>\<open>calculate_transfers_for_distance\<close>, the table of the batch scripts, and the per-stop
  route counts computed from the list \<^verbatim>\<open>transfers\<close> for any order of the joined rows.
\<close>

theorem C9_order_independent:
  assumes "set ion_times = set ion_times'" and "set bus_times = set bus_times'"
    and "set bus_stops = set bus_stops'" and "set ion_stops = set ion_stops'"
    and "distinct (map stop_id ion_stops)" and "distinct (map stop_id ion_stops')"
  shows "calculate_transfers_for_distance w m ion_stops bus_stops ion_times bus_times r
       = calculate_transfers_for_distance w m ion_stops' bus_stops' ion_times' bus_times' r
     \<and> (set st_with_routes = set st_with_routes' \<longrightarrow>
          transfer_index w ion_routes bus_routes ion_stops bus_stops st_with_routes ws we r m
          = transfer_index w ion_routes bus_routes ion_stops bus_stops' st_with_routes' ws we r m)
     \<and> (set nearby = set nearby' \<longrightarrow>
          map_sum id xfer_counts_of (nearby_loop ion_times bus_times m nearby [])
          = map_sum id xfer_counts_of (nearby_loop ion_times' bus_times' m nearby' []))"
proof (intro conjI impI)
  have n: "set (sjoin_within w bus_stops ion_stops r) = set (sjoin_within w bus_stops' ion_stops' r)"
    by (rule set_sjoin_within_cong[OF assms(3,4)])
  have ok: "list_all (row_ok ion_times bus_times) (sjoin_within w bus_stops ion_stops r)
          = list_all (row_ok ion_times' bus_times') (sjoin_within w bus_stops' ion_stops' r)"
    by (rule list_all_row_ok_cong[OF assms(1,2) n])
  have c: "distinct_route_count (all_transfers ion_times bus_times m (sjoin_within w bus_stops ion_stops r)) k
         = distinct_route_count (all_transfers ion_times' bus_times' m (sjoin_within w bus_stops' ion_stops' r)) k"
    for k
    by (rule distinct_route_count_cong_set) (rule all_transfers_cong_set[OF assms(1,2) n])
  show "calculate_transfers_for_distance w m ion_stops bus_stops ion_times bus_times r
       = calculate_transfers_for_distance w m ion_stops' bus_stops' ion_times' bus_times' r"
    unfolding calculate_transfers_for_distance_eq ok c assms(4) ..
next
  assume st: "set st_with_routes = set st_with_routes'"
  let ?it = "filter_ion_times ion_routes ws we st_with_routes"
  let ?it' = "filter_ion_times ion_routes ws we st_with_routes'"
  let ?bt = "filter_bus_times bus_routes ws we st_with_routes"
  let ?bt' = "filter_bus_times bus_routes ws we st_with_routes'"
  have i: "set ?it = set ?it'" and b: "set ?bt = set ?bt'"
    using st by (simp_all add: filter_ion_times_def filter_bus_times_def)
  have n: "set (sjoin_within w bus_stops ion_stops r) = set (sjoin_within w bus_stops' ion_stops r)"
    by (rule set_sjoin_within_cong[OF assms(3) refl])
  have ok: "list_all (row_ok ?it ?bt) (sjoin_within w bus_stops ion_stops r)
          = list_all (row_ok ?it' ?bt') (sjoin_within w bus_stops' ion_stops r)"
    by (rule list_all_row_ok_cong[OF i b n])
  have c: "distinct_route_count (all_transfers ?it ?bt m (sjoin_within w bus_stops ion_stops r)) k
         = distinct_route_count (all_transfers ?it' ?bt' m (sjoin_within w bus_stops' ion_stops r)) k"
    for k
    by (rule distinct_route_count_cong_set) (rule all_transfers_cong_set[OF i b n])
  show "transfer_index w ion_routes bus_routes ion_stops bus_stops st_with_routes ws we r m
          = transfer_index w ion_routes bus_routes ion_stops bus_stops' st_with_routes' ws we r m"
    unfolding transfer_index_eq Let_def ok c ..
next
  assume "set nearby = set nearby'"
  then show "map_sum id xfer_counts_of (nearby_loop ion_times bus_times m nearby [])
          = map_sum id xfer_counts_of (nearby_loop ion_times' bus_times' m nearby' [])"
    by (rule nearby_loop_cong_set[OF assms(1,2)])
qed

theorem C9_order_independent_witness:
  "calculate_transfers_for_distance planar_within 6 [R1, R2] [B1, B2]
       [sample_row ''R1'' ''301'' ''07:00:00'', sample_row ''R2'' ''301'' ''07:02:00'']
       [sample_row ''B1'' ''X'' ''07:03:00'', sample_row ''B2'' ''Y'' ''07:05:00''] 100
   = calculate_transfers_for_distance planar_within 6 [R2, R1] [B2, B1]
       [sample_row ''R2'' ''301'' ''07:02:00'', sample_row ''R1'' ''301'' ''07:00:00'']
       [sample_row ''B2'' ''Y'' ''07:05:00'', sample_row ''B1'' ''X'' ''07:03:00''] 100
   \<and> calculate_transfers_for_distance planar_within 6 [R1, R2] [B1, B2]
       [sample_row ''R1'' ''301'' ''07:00:00'', sample_row ''R2'' ''301'' ''07:02:00'']
       [sample_row ''B1'' ''X'' ''07:03:00'', sample_row ''B2'' ''Y'' ''07:05:00''] 100
   = Inr [''R1'' \<mapsto> 2, ''R2'' \<mapsto> 0]"
proof -
  have h1: "set [sample_row ''R1'' ''301'' ''07:00:00'', sample_row ''R2'' ''301'' ''07:02:00'']
          = set [sample_row ''R2'' ''301'' ''07:02:00'', sample_row ''R1'' ''301'' ''07:00:00'']"
    by (simp add: insert_commute)
  have h2: "set [sample_row ''B1'' ''X'' ''07:03:00'', sample_row ''B2'' ''Y'' ''07:05:00'']
          = set [sample_row ''B2'' ''Y'' ''07:05:00'', sample_row ''B1'' ''X'' ''07:03:00'']"
    by (simp add: insert_commute)
  have h3: "set [B1, B2] = set [B2, B1]"
    by (simp add: insert_commute)
  have h4: "set [R1, R2] = set [R2, R1]"
    by (simp add: insert_commute)
  have h5: "distinct (map stop_id [R1, R2])" "distinct (map stop_id [R2, R1])"
    by (simp_all add: sample_defs)
  have e: "calculate_transfers_for_distance planar_within 6 [R1, R2] [B1, B2]
       [sample_row ''R1'' ''301'' ''07:00:00'', sample_row ''R2'' ''301'' ''07:02:00'']
       [sample_row ''B1'' ''X'' ''07:03:00'', sample_row ''B2'' ''Y'' ''07:05:00''] 100
   = Inr [''R1'' \<mapsto> 2, ''R2'' \<mapsto> 0]"
    by (simp add: run_defs sample_defs numeral_2_eq_2)
  from C9_order_independent[OF h1 h2 h3 h4 h5, THEN conjunct1, of planar_within 6 100] e
  show ?thesis by (simp only: simp_thms)
qed

end
